theory Spec2Isabelle
  imports Main "HOL-Library.Monad_Syntax" "HOL-Library.Word"
begin

section \<open>Strings of the program\<close>

text \<open>
  The program is TypeScript; its strings are sequences of UTF-16 code units. The model
  covers the code units 0..255: one HOL \<^typ>\<open>char\<close> is one code unit, and every library
  function below (white space, case folding, percent-encoding) is written out for that
  range. The query compiler is modelled a second time on all strings of 16-bit code
  units, where a lone surrogate makes \<^verbatim>\<open>encodeURIComponent\<close> throw. The characters that
  cannot be typed inside a HOL string literal get names.
\<close>

type_synonym utf16 = "16 word list"

text \<open>A string of the range 0..255 among all strings.\<close>

definition widen :: "string \<Rightarrow> utf16" where
  "widen s = map (\<lambda>c. of_nat (of_char c)) s"

definition backslash :: char where
  "backslash = CHR 0x5C"

definition dquote :: char where
  "dquote = CHR 0x22"

definition squote :: char where
  "squote = CHR 0x27"

definition newline :: char where
  "newline = CHR 0x0A"

text \<open>\<^verbatim>\<open>s.split(sep)\<close> for a separator of one character; the array is never empty.\<close>

fun split :: "char \<Rightarrow> string \<Rightarrow> string list" where
  "split sep [] = [[]]"
| "split sep (c # cs) =
     (if c = sep then [] # split sep cs
      else (case split sep cs of
              [] \<Rightarrow> [[c]]
            | p # ps \<Rightarrow> (c # p) # ps))"

text \<open>\<^verbatim>\<open>parts.join(sep)\<close>.\<close>

fun join :: "string \<Rightarrow> string list \<Rightarrow> string" where
  "join sep [] = []"
| "join sep [p] = p"
| "join sep (p # q # ps) = p @ sep @ join sep (q # ps)"

text \<open>\<^verbatim>\<open>array.pop()\<close>, read for its value only: \<open>None\<close> is \<^verbatim>\<open>undefined\<close>.\<close>

definition pop :: "'a list \<Rightarrow> 'a option" where
  "pop xs = (if xs = [] then None else Some (last xs))"

text \<open>\<^verbatim>\<open>xs.slice(-3)\<close> of an array and \<^verbatim>\<open>s.slice(0, -3)\<close> of a string.\<close>

definition sliceLast3 :: "'a list \<Rightarrow> 'a list" where
  "sliceLast3 xs = drop (length xs - 3) xs"

definition sliceDrop3 :: "string \<Rightarrow> string" where
  "sliceDrop3 s = take (length s - 3) s"

text \<open>\<^verbatim>\<open>s.includes(needle)\<close>: the needle starts at some position of \<open>s\<close>.\<close>

fun includesStr :: "string \<Rightarrow> string \<Rightarrow> bool" where
  "includesStr [] needle = (needle = [])"
| "includesStr (c # cs) needle =
     (take (length needle) (c # cs) = needle \<or> includesStr cs needle)"

text \<open>
  \<^verbatim>\<open>s.trim()\<close> removes white space and line terminators from both ends. Below 256 these
  are TAB, LF, VT, FF, CR, SPACE and NO-BREAK SPACE.
\<close>

definition isWhiteSpace :: "char \<Rightarrow> bool" where
  "isWhiteSpace c = (of_char c \<in> set [9, 10, 11, 12, 13, 32, 160 :: nat])"

definition trim :: "string \<Rightarrow> string" where
  "trim s = rev (dropWhile isWhiteSpace (rev (dropWhile isWhiteSpace s)))"

subsection \<open>encodeURIComponent\<close>

text \<open>
  Every code point except the unreserved marks \<^verbatim>\<open>A-Z a-z 0-9 - _ . ! ~ * ' ( )\<close> is
  replaced by the percent-escapes of its UTF-8 bytes, one to four of them. On the code
  units 0..255 every code unit is a code point, with one or two bytes, and the function
  cannot throw; \<open>encodeURIComponent16\<close> below is the function on all strings.
\<close>

definition uriUnreserved :: "char \<Rightarrow> bool" where
  "uriUnreserved c =
     (let n = (of_char c :: nat) in
        (65 \<le> n \<and> n \<le> 90) \<or> (97 \<le> n \<and> n \<le> 122) \<or> (48 \<le> n \<and> n \<le> 57)
        \<or> c \<in> set (''-_.!~*()'' @ [squote]))"

definition hexDigit :: "nat \<Rightarrow> char" where
  "hexDigit n = ''0123456789ABCDEF'' ! (n mod 16)"

definition percentByte :: "nat \<Rightarrow> string" where
  "percentByte b = [CHR ''%'', hexDigit (b div 16), hexDigit b]"

definition utf8Bytes :: "nat \<Rightarrow> nat list" where
  "utf8Bytes n =
     (if n < 128 then [n]
      else if n < 2048 then [192 + n div 64, 128 + n mod 64]
      else if n < 65536 then [224 + n div 4096, 128 + (n div 64) mod 64, 128 + n mod 64]
      else [240 + n div 262144, 128 + (n div 4096) mod 64, 128 + (n div 64) mod 64,
            128 + n mod 64])"

definition encodeUnit :: "char \<Rightarrow> string" where
  "encodeUnit c =
     (if uriUnreserved c then [c] else concat (map percentByte (utf8Bytes (of_char c))))"

definition encodeURIComponent :: "string \<Rightarrow> string" where
  "encodeURIComponent s = concat (map encodeUnit s)"

text \<open>
  What the program can throw or be rejected with: \<^verbatim>\<open>new Error(message)\<close>, a
  \<^verbatim>\<open>TypeError\<close> or a \<^verbatim>\<open>URIError\<close> of the runtime, and the rejection of \<^verbatim>\<open>fetch\<close> or of
  reading its body.
\<close>

datatype error = Error string | TypeError | URIError | FetchError

text \<open>
  \<^verbatim>\<open>encodeURIComponent\<close> on all strings. A code unit from D800 to DFFF is a surrogate:
  a leading one (up to DBFF) followed by a trailing one (from DC00) is one code point
  above FFFF; any other surrogate is alone, and the function throws \<^verbatim>\<open>URIError\<close>.
\<close>

definition isSurrogate :: "16 word \<Rightarrow> bool" where
  "isSurrogate u = (0xD800 \<le> unat u \<and> unat u \<le> 0xDFFF)"

definition isTrailing :: "16 word \<Rightarrow> bool" where
  "isTrailing u = (0xDC00 \<le> unat u \<and> unat u \<le> 0xDFFF)"

definition pairPoint :: "16 word \<Rightarrow> 16 word \<Rightarrow> nat" where
  "pairPoint u v = (unat u - 0xD800) * 0x400 + (unat v - 0xDC00) + 0x10000"

definition uriUnreserved16 :: "16 word \<Rightarrow> bool" where
  "uriUnreserved16 u = (unat u < 128 \<and> uriUnreserved (char_of (unat u)))"

definition percentBytes :: "nat \<Rightarrow> string" where
  "percentBytes n = concat (map percentByte (utf8Bytes n))"

fun prepend :: "string \<Rightarrow> error + string \<Rightarrow> error + string" where
  "prepend s (Inl e) = Inl e"
| "prepend s (Inr r) = Inr (s @ r)"

fun encodeURIComponent16 :: "utf16 \<Rightarrow> error + string" where
  "encodeURIComponent16 [] = Inr []"
| "encodeURIComponent16 [u] =
     (if uriUnreserved16 u then Inr [char_of (unat u)]
      else if isSurrogate u then Inl URIError
      else Inr (percentBytes (unat u)))"
| "encodeURIComponent16 (u # v # r) =
     (if uriUnreserved16 u
      then prepend [char_of (unat u)] (encodeURIComponent16 (v # r))
      else if \<not> isSurrogate u
      then prepend (percentBytes (unat u)) (encodeURIComponent16 (v # r))
      else if isTrailing u \<or> \<not> isTrailing v then Inl URIError
      else prepend (percentBytes (pairPoint u v)) (encodeURIComponent16 r))"

section \<open>Highlight engine\<close>

subsection \<open>The fragment of the regular-expression machinery that the program uses\<close>

text \<open>
  \<^verbatim>\<open>GetSubstitution\<close>: the replacement template of \<^verbatim>\<open>String.prototype.replace\<close>, with
  \<^verbatim>\<open>$$\<close>, \<^verbatim>\<open>$&\<close> (the match) and \<^verbatim>\<open>$1\<close>..\<^verbatim>\<open>$9\<close> (a capture of the match). The two
  templates of the program use \<^verbatim>\<open>$&\<close> and \<^verbatim>\<open>$1\<close> only.
\<close>

definition captureIndex :: "char \<Rightarrow> nat" where
  "captureIndex d = (of_char d :: nat) - 48"

fun getSubstitution :: "string \<Rightarrow> string list \<Rightarrow> string \<Rightarrow> string" where
  "getSubstitution matched captures [] = []"
| "getSubstitution matched captures [c] = [c]"
| "getSubstitution matched captures (c # d # r) =
     (if c \<noteq> CHR ''$'' then c # getSubstitution matched captures (d # r)
      else if d = CHR ''$'' then CHR ''$'' # getSubstitution matched captures r
      else if d = CHR ''&'' then matched @ getSubstitution matched captures r
      else if 49 \<le> (of_char d :: nat) \<and> (of_char d :: nat) \<le> 57
              \<and> captureIndex d \<le> length captures
           then captures ! (captureIndex d - 1) @ getSubstitution matched captures r
      else c # getSubstitution matched captures (d # r))"

text \<open>
  The syntax characters of the pattern grammar, and the character class
  \<^verbatim>\<open>[.*+?^${}()|[\]\\]\<close> that \<^verbatim>\<open>highlightText\<close> escapes.
\<close>

definition syntaxCharacters :: "char list" where
  "syntaxCharacters = ''^$'' @ [backslash] @ ''.*+?()[]{}|''"

definition escapeClass :: "char list" where
  "escapeClass = ''.*+?^${}()|[]'' @ [backslash]"

text \<open>\<^verbatim>\<open>query.replace(/[.*+?^${}()|[\]\\]/g, "\\$&")\<close>: every match is one character.\<close>

definition escapeQuery :: "string \<Rightarrow> string" where
  "escapeQuery query =
     concat (map (\<lambda>c. if c \<in> set escapeClass
                       then getSubstitution [c] [] [backslash, CHR ''$'', CHR ''&'']
                       else [c]) query)"

text \<open>
  \<^verbatim>\<open>new RegExp(source, "gi")\<close> on the patterns that are one capture group around pattern
  characters and escaped syntax characters; the compiled pattern is the list of the
  characters to match. \<open>None\<close> is every other pattern (other constructs of the grammar, or
  a syntax error).
\<close>

fun parseAtoms :: "string \<Rightarrow> (char list \<times> string) option" where
  "parseAtoms [] = Some ([], [])"
| "parseAtoms [c] =
     (if c = backslash then None
      else if c \<in> set syntaxCharacters then Some ([], [c])
      else Some ([c], []))"
| "parseAtoms (c # d # r) =
     (if c = backslash then
        (if d \<in> set syntaxCharacters
         then map_option (\<lambda>(as, rest). (d # as, rest)) (parseAtoms r)
         else None)
      else if c \<in> set syntaxCharacters then Some ([], c # d # r)
      else map_option (\<lambda>(as, rest). (c # as, rest)) (parseAtoms (d # r)))"

definition newRegExp :: "string \<Rightarrow> char list option" where
  "newRegExp source =
     (case source of
        [] \<Rightarrow> None
      | c # r \<Rightarrow>
          if c \<noteq> CHR ''('' then None
          else (case parseAtoms r of
                  None \<Rightarrow> None
                | Some (as, rest) \<Rightarrow> if rest = '')'' then Some as else None))"

text \<open>
  Matching with the flag \<^verbatim>\<open>i\<close> and without \<^verbatim>\<open>u\<close> compares canonicalised code units: the
  upper-case form when that is a single code unit. Below 256 the letters with one are
  \<^verbatim>\<open>a-z\<close>, the micro sign (to U+039C), U+00E0..U+00FE without the division sign, and
  U+00FF (to U+0178); the sharp s upper-cases to two code units and stays.
\<close>

definition canonicalize :: "char \<Rightarrow> nat" where
  "canonicalize ch =
     (let n = (of_char ch :: nat) in
        if 97 \<le> n \<and> n \<le> 122 then n - 32
        else if n = 181 then 924
        else if 224 \<le> n \<and> n \<le> 254 \<and> n \<noteq> 247 then n - 32
        else if n = 255 then 376
        else n)"

text \<open>The compiled pattern at the start of the input: the text it matches, if it does.\<close>

fun matchAtoms :: "char list \<Rightarrow> string \<Rightarrow> string option" where
  "matchAtoms [] t = Some []"
| "matchAtoms (a # as) [] = None"
| "matchAtoms (a # as) (c # t) =
     (if canonicalize a = canonicalize c then map_option ((#) c) (matchAtoms as t)
      else None)"

text \<open>
  \<^verbatim>\<open>text.replace(regex, template)\<close> for a global regex: the matches are looked for from
  left to right, each search starting where the previous match ended (one further after an
  empty match); the text between the matches is copied. The pattern is one capture group,
  so capture 1 is the match.
\<close>

function replaceGlobal :: "char list \<Rightarrow> string \<Rightarrow> string \<Rightarrow> string" where
  "replaceGlobal as template [] =
     (case matchAtoms as [] of
        None \<Rightarrow> []
      | Some m \<Rightarrow> getSubstitution m [m] template)"
| "replaceGlobal as template (c # t) =
     (case matchAtoms as (c # t) of
        None \<Rightarrow> c # replaceGlobal as template t
      | Some m \<Rightarrow>
          if m = [] then getSubstitution m [m] template @ c # replaceGlobal as template t
          else getSubstitution m [m] template
                 @ replaceGlobal as template (drop (length m) (c # t)))"
  by pat_completeness auto
termination
  by (relation "measure (\<lambda>(as, template, t). length t)") auto

subsection \<open>highlightText\<close>

text \<open>
  \<open>None\<close> stands for a pattern outside the fragment above; \<open>highlightText_highlighted\<close>
  shows that it does not occur.
\<close>

definition highlightText :: "string \<Rightarrow> string \<Rightarrow> string option" where
  "highlightText text query =
     (if query = [] then Some text
      else (case newRegExp (''('' @ escapeQuery query @ '')'') of
              None \<Rightarrow> None
            | Some regex \<Rightarrow> Some (replaceGlobal regex ''<mark>$1</mark>'' text)))"

section \<open>Data model\<close>

text \<open>
  The interfaces of the program, with the fields that the program reads. A field marked
  optional in the source has an \<open>option\<close> type. Fields of two interfaces that share a name
  get the interface as a prefix.
\<close>

record 'u Criteria =
  title :: "'u list"
  description :: "'u list"
  creator :: "'u list"
  related :: "'u list"
  organisation :: "'u list"

text \<open>
  \<^verbatim>\<open>SearchCriteria\<close>: with the code units 0..255, and with all code units for the query
  compiler on all strings.
\<close>

type_synonym SearchCriteria = "char Criteria"

type_synonym SearchCriteria16 = "16 word Criteria"

definition widenCriteria :: "SearchCriteria \<Rightarrow> SearchCriteria16" where
  "widenCriteria searchCriteria =
     \<lparr>title = widen (title searchCriteria),
      description = widen (description searchCriteria),
      creator = widen (creator searchCriteria),
      related = widen (related searchCriteria),
      organisation = widen (organisation searchCriteria)\<rparr>"

record NameIdentifier =
  nameIdentifier :: string

record Creator =
  creator_name :: string

record RelatedIdentifier =
  relatedIdentifier :: string

record Contributor =
  contributor_name :: string
  nameIdentifiers :: "NameIdentifier list option"

record Description =
  description_text :: string

record Title =
  title_text :: string

record Attributes =
  doi :: string
  titles :: "Title list option"
  creators :: "Creator list option"
  relatedIdentifiers :: "RelatedIdentifier list option"
  contributors :: "Contributor list option"
  descriptions :: "Description list option"

record Item =
  attributes :: Attributes

record ApiResponse =
  data :: "Item list"

text \<open>
  What \<^verbatim>\<open>response.json()\<close> resolves to: a value with a \<^verbatim>\<open>data\<close> array, which is an
  \<^verbatim>\<open>ApiResponse\<close>, or a value without one (the body of an error answer, say). The cast
  \<^verbatim>\<open>as Promise<ApiResponse>\<close> checks nothing, so the program can hold either.
\<close>

datatype json = WithData ApiResponse | WithoutData

text \<open>
  The network, as the program sees it: the outcome of \<^verbatim>\<open>fetch(url)\<close> followed by
  \<^verbatim>\<open>response.json()\<close>, \<open>Inl\<close> a rejection. A function that fetches returns the list
  of the URLs it requested next to its result.
\<close>

type_synonym backend = "string \<Rightarrow> error + json"

section \<open>Query compiler and fan-out search\<close>

definition queryParts :: "SearchCriteria \<Rightarrow> string list" where
  "queryParts searchCriteria =
     (if title searchCriteria \<noteq> []
      then [''titles.title:*'' @ encodeURIComponent (title searchCriteria) @ ''*'']
      else [])
     @ (if description searchCriteria \<noteq> []
        then [''descriptions.description:*''
                @ encodeURIComponent (description searchCriteria) @ ''*'']
        else [])
     @ (if creator searchCriteria \<noteq> []
        then [''creators.name:'' @ [dquote]
                @ encodeURIComponent (creator searchCriteria) @ [dquote]]
        else [])
     @ (if related searchCriteria \<noteq> []
        then [''relatedIdentifiers.relatedIdentifier:'' @ [dquote]
                @ encodeURIComponent (related searchCriteria) @ [dquote]]
        else [])
     @ (if organisation searchCriteria \<noteq> []
        then [''contributors.nameIdentifiers.nameIdentifier:'' @ [dquote]
                @ encodeURIComponent (organisation searchCriteria) @ [dquote]]
        else [])"

definition queryString :: "SearchCriteria \<Rightarrow> string \<Rightarrow> string" where
  "queryString searchCriteria operator =
     ''(identifiers.identifier:*raid.org.au* AND (''
       @ join ('' '' @ operator @ '' '') (queryParts searchCriteria) @ ''))''"

definition searchSingleApi ::
  "backend \<Rightarrow> string \<Rightarrow> SearchCriteria \<Rightarrow> string \<Rightarrow> string list \<times> (error + json)"
where
  "searchSingleApi fetch apiUrl searchCriteria operator =
     (if length (queryParts searchCriteria) = 0 then ([], Inr (WithData \<lparr>data = []\<rparr>))
      else
        (let url = apiUrl @ ''?query='' @ queryString searchCriteria operator
                     @ ''&page[size]=10000''
         in ([url], fetch url)))"

subsection \<open>The query compiler on all strings\<close>

text \<open>
  \<^verbatim>\<open>searchSingleApi\<close> for criteria of any code units. The five conditional pushes run in
  their order, and the first \<^verbatim>\<open>encodeURIComponent\<close> that throws ends the function: its
  promise is rejected, and nothing is requested. \<open>searchSingleApi16_widen\<close> shows that on
  the code units 0..255 this is \<open>searchSingleApi\<close> above.
\<close>

definition pushClause ::
  "string \<Rightarrow> utf16 \<Rightarrow> string \<Rightarrow> error + string list \<Rightarrow> error + string list"
where
  "pushClause opening v closing pushed =
     (case pushed of
        Inl e \<Rightarrow> Inl e
      | Inr parts \<Rightarrow>
          if v \<noteq> [] then
            (case encodeURIComponent16 v of
               Inl e \<Rightarrow> Inl e
             | Inr encoded \<Rightarrow> Inr (parts @ [opening @ encoded @ closing]))
          else Inr parts)"

definition queryParts16 :: "SearchCriteria16 \<Rightarrow> error + string list" where
  "queryParts16 searchCriteria =
     (let parts0 = Inr [];
          parts1 = pushClause ''titles.title:*'' (title searchCriteria) ''*'' parts0;
          parts2 = pushClause ''descriptions.description:*'' (description searchCriteria)
                     ''*'' parts1;
          parts3 = pushClause (''creators.name:'' @ [dquote]) (creator searchCriteria)
                     [dquote] parts2;
          parts4 = pushClause (''relatedIdentifiers.relatedIdentifier:'' @ [dquote])
                     (related searchCriteria) [dquote] parts3
      in pushClause (''contributors.nameIdentifiers.nameIdentifier:'' @ [dquote])
           (organisation searchCriteria) [dquote] parts4)"

definition searchSingleApi16 ::
  "backend \<Rightarrow> string \<Rightarrow> SearchCriteria16 \<Rightarrow> string \<Rightarrow> string list \<times> (error + json)"
where
  "searchSingleApi16 fetch apiUrl searchCriteria operator =
     (case queryParts16 searchCriteria of
        Inl e \<Rightarrow> ([], Inl e)
      | Inr parts \<Rightarrow>
          if length parts = 0 then ([], Inr (WithData \<lparr>data = []\<rparr>))
          else
            (let query = ''(identifiers.identifier:*raid.org.au* AND (''
                           @ join ('' '' @ operator @ '' '') parts @ ''))'';
                 url = apiUrl @ ''?query='' @ query @ ''&page[size]=10000''
             in ([url], fetch url)))"

definition hasAtLeastOneQuery :: "SearchCriteria \<Rightarrow> bool" where
  "hasAtLeastOneQuery searchCriteria =
     list_ex (\<lambda>v. trim v \<noteq> [])
       [title searchCriteria, description searchCriteria, creator searchCriteria,
        related searchCriteria, organisation searchCriteria]"

definition apis :: "string list" where
  "apis = [''https://api.datacite.org/dois'']"

text \<open>
  The \<^verbatim>\<open>reduce\<close> over the array of \<^verbatim>\<open>Promise.allSettled\<close>, which holds one outcome for
  each promise, in the order of the promises. A rejected outcome is passed over. For a
  fulfilled one \<^verbatim>\<open>...result.value.data\<close> is spread, and throws \<^verbatim>\<open>TypeError\<close> when the
  value has no \<^verbatim>\<open>data\<close> array; nothing catches it, so the \<^verbatim>\<open>reduce\<close> ends there.
\<close>

fun reduceResults :: "Item list \<Rightarrow> (error + json) list \<Rightarrow> error + Item list" where
  "reduceResults acc [] = Inr acc"
| "reduceResults acc (Inl e # results) = reduceResults acc results"
| "reduceResults acc (Inr (WithData v) # results) = reduceResults (acc @ data v) results"
| "reduceResults acc (Inr WithoutData # results) = Inl TypeError"

definition combinedData :: "(error + json) list \<Rightarrow> error + Item list" where
  "combinedData results = reduceResults [] results"

text \<open>The body of \<^verbatim>\<open>searchDois\<close> for a list of endpoints, and \<^verbatim>\<open>searchDois\<close> with its own.\<close>

definition searchEndpoints ::
  "string list \<Rightarrow> backend \<Rightarrow> SearchCriteria \<Rightarrow> string \<Rightarrow> string list \<times> (error + ApiResponse)"
where
  "searchEndpoints endpoints fetch searchCriteria operator =
     (if \<not> hasAtLeastOneQuery searchCriteria
      then ([], Inl (Error ''At least one search criterion is required''))
      else
        (let settled = map (\<lambda>api. searchSingleApi fetch api searchCriteria operator) endpoints
         in (concat (map fst settled),
             case combinedData (map snd settled) of
               Inl e \<Rightarrow> Inl e
             | Inr items \<Rightarrow> Inr \<lparr>data = items\<rparr>)))"

definition searchDois ::
  "backend \<Rightarrow> SearchCriteria \<Rightarrow> string \<Rightarrow> string list \<times> (error + ApiResponse)"
where
  "searchDois fetch searchCriteria operator =
     searchEndpoints apis fetch searchCriteria operator"

section \<open>Result projection\<close>

text \<open>
  The functions of the projection call \<^verbatim>\<open>highlightText\<close> and pass its \<open>None\<close> on;
  \<open>createResultElement_returns\<close> shows that they always return. The template
  \<^verbatim>\<open><a href="..." target="_blank">...</a>\<close> of the four kinds of link is \<open>anchor\<close>.
\<close>

definition anchor :: "string \<Rightarrow> string \<Rightarrow> string" where
  "anchor href body =
     ''<a href='' @ [dquote] @ href @ [dquote] @ '' target='' @ [dquote] @ ''_blank''
       @ [dquote] @ ''>'' @ body @ ''</a>''"

fun mapOption :: "('a \<Rightarrow> 'b option) \<Rightarrow> 'a list \<Rightarrow> 'b list option" where
  "mapOption f [] = Some []"
| "mapOption f (x # xs) = do { y \<leftarrow> f x; ys \<leftarrow> mapOption f xs; Some (y # ys) }"

definition renderTitles :: "Attributes \<Rightarrow> SearchCriteria \<Rightarrow> string option" where
  "renderTitles attrs searchCriteria =
     (case titles attrs of
        None \<Rightarrow> Some ''No Title''
      | Some ts \<Rightarrow> do {
          hs \<leftarrow> mapOption (\<lambda>t. if title searchCriteria \<noteq> []
                               then highlightText (title_text t) (title searchCriteria)
                               else Some (title_text t)) ts;
          let joined = join '' | '' (filter (\<lambda>h. h \<noteq> []) hs);
          Some (if joined \<noteq> [] then joined else ''No Title'')
        })"

definition renderDoiLink :: "Attributes \<Rightarrow> SearchCriteria \<Rightarrow> string option" where
  "renderDoiLink attrs searchCriteria =
     (if doi attrs \<noteq> [] then do {
        body \<leftarrow> (if related searchCriteria \<noteq> []
                 then highlightText (doi attrs) (related searchCriteria)
                 else Some (doi attrs));
        Some (anchor (''https://raid.org/'' @ doi attrs) body)
      }
      else Some ''No DOI'')"

fun creatorsLoop :: "SearchCriteria \<Rightarrow> Creator list \<Rightarrow> string \<Rightarrow> string option" where
  "creatorsLoop searchCriteria [] creatorsLinks = Some creatorsLinks"
| "creatorsLoop searchCriteria (c # cs) creatorsLinks = do {
     highlightedName \<leftarrow> (if creator searchCriteria \<noteq> []
                          then highlightText (creator_name c) (creator searchCriteria)
                          else Some (creator_name c));
     creatorsLoop searchCriteria cs
       (creatorsLinks @ anchor (creator_name c) highlightedName @ '' & '')
   }"

definition renderCreatorsLinks :: "Attributes \<Rightarrow> SearchCriteria \<Rightarrow> string option" where
  "renderCreatorsLinks attrs searchCriteria =
     (case creators attrs of
        None \<Rightarrow> Some []
      | Some cs \<Rightarrow>
          if length cs > 0
          then map_option sliceDrop3 (creatorsLoop searchCriteria cs [])
          else Some [])"

fun relatedLoop ::
  "SearchCriteria \<Rightarrow> RelatedIdentifier list \<Rightarrow> string \<Rightarrow> string option"
where
  "relatedLoop searchCriteria [] relatedIdentifiersLinks = Some relatedIdentifiersLinks"
| "relatedLoop searchCriteria (r # rs) relatedIdentifiersLinks = do {
     highlightedId \<leftarrow> (if related searchCriteria \<noteq> []
                        then highlightText (relatedIdentifier r) (related searchCriteria)
                        else Some (relatedIdentifier r));
     relatedLoop searchCriteria rs
       (relatedIdentifiersLinks @ anchor (relatedIdentifier r) highlightedId @ '' & '')
   }"

definition renderRelatedIdentifiersLinks ::
  "Attributes \<Rightarrow> SearchCriteria \<Rightarrow> string option"
where
  "renderRelatedIdentifiersLinks attrs searchCriteria =
     (case relatedIdentifiers attrs of
        None \<Rightarrow> Some []
      | Some rs \<Rightarrow>
          if length rs > 0
          then map_option sliceDrop3 (relatedLoop searchCriteria rs [])
          else Some [])"

text \<open>The two nested loops over the contributors and their name identifiers.\<close>

fun nameIdsLoop :: "SearchCriteria \<Rightarrow> NameIdentifier list \<Rightarrow> string \<Rightarrow> string option" where
  "nameIdsLoop searchCriteria [] organisationsLinks = Some organisationsLinks"
| "nameIdsLoop searchCriteria (nameId # rest) organisationsLinks =
     (if nameIdentifier nameId \<noteq> [] \<and> includesStr (nameIdentifier nameId) ''ror.org''
      then do {
        let rorId = (case pop (split CHR ''/'' (nameIdentifier nameId)) of
                       None \<Rightarrow> []
                     | Some p \<Rightarrow> if p \<noteq> [] then p else []);
        highlightedName \<leftarrow>
          (if organisation searchCriteria \<noteq> []
           then highlightText (nameIdentifier nameId) (organisation searchCriteria)
           else Some (nameIdentifier nameId));
        nameIdsLoop searchCriteria rest
          (organisationsLinks @ anchor (''https://ror.org/'' @ rorId) highlightedName
             @ '' & '')
      }
      else nameIdsLoop searchCriteria rest organisationsLinks)"

fun contributorsLoop ::
  "SearchCriteria \<Rightarrow> Contributor list \<Rightarrow> string \<Rightarrow> string option"
where
  "contributorsLoop searchCriteria [] organisationsLinks = Some organisationsLinks"
| "contributorsLoop searchCriteria (contributor # rest) organisationsLinks =
     (case nameIdentifiers contributor of
        None \<Rightarrow> contributorsLoop searchCriteria rest organisationsLinks
      | Some ids \<Rightarrow>
          if length ids > 0
          then do {
            links \<leftarrow> nameIdsLoop searchCriteria ids organisationsLinks;
            contributorsLoop searchCriteria rest links
          }
          else contributorsLoop searchCriteria rest organisationsLinks)"

definition renderOrganisationsLinks :: "Attributes \<Rightarrow> SearchCriteria \<Rightarrow> string option" where
  "renderOrganisationsLinks attrs searchCriteria =
     (case contributors attrs of
        None \<Rightarrow> Some []
      | Some cs \<Rightarrow>
          if length cs > 0
          then do {
            organisationsLinks \<leftarrow> contributorsLoop searchCriteria cs [];
            Some (if organisationsLinks \<noteq> [] then sliceDrop3 organisationsLinks else [])
          }
          else Some [])"

definition firstDescription :: "Attributes \<Rightarrow> string" where
  "firstDescription attrs =
     (case descriptions attrs of
        None \<Rightarrow> ''No Description''
      | Some [] \<Rightarrow> ''No Description''
      | Some (d # ds) \<Rightarrow>
          if description_text d \<noteq> [] then description_text d else ''No Description'')"

definition renderDescription :: "Attributes \<Rightarrow> SearchCriteria \<Rightarrow> string option" where
  "renderDescription attrs searchCriteria =
     (if description searchCriteria \<noteq> []
      then highlightText (firstDescription attrs) (description searchCriteria)
      else Some (firstDescription attrs))"

definition orElse :: "string \<Rightarrow> string \<Rightarrow> string" where
  "orElse s placeholder = (if s \<noteq> [] then s else placeholder)"

text \<open>The \<^verbatim>\<open>innerHTML\<close> of the element of class \<^verbatim>\<open>search-result\<close>.\<close>

definition createResultElement :: "Item \<Rightarrow> SearchCriteria \<Rightarrow> string option" where
  "createResultElement item searchCriteria = do {
     titlesLine \<leftarrow> renderTitles (attributes item) searchCriteria;
     doiLink \<leftarrow> renderDoiLink (attributes item) searchCriteria;
     creatorsLinks \<leftarrow> renderCreatorsLinks (attributes item) searchCriteria;
     relatedIdentifiersLinks \<leftarrow> renderRelatedIdentifiersLinks (attributes item) searchCriteria;
     organisationsLinks \<leftarrow> renderOrganisationsLinks (attributes item) searchCriteria;
     descriptionLine \<leftarrow> renderDescription (attributes item) searchCriteria;
     Some ([newline] @ ''      <h3>'' @ titlesLine @ ''</h3>''
       @ [newline] @ ''      <p>RAiD: '' @ doiLink @ ''</p>''
       @ [newline] @ ''      <p>Creators: '' @ orElse creatorsLinks ''No creators'' @ ''</p>''
       @ [newline] @ ''      <p>Related Identifiers: ''
       @ orElse relatedIdentifiersLinks ''No related identifiers'' @ ''</p>''
       @ [newline] @ ''      <p>Organisations: ''
       @ orElse organisationsLinks ''No organisations'' @ ''</p>''
       @ [newline] @ ''      <p>Description: '' @ descriptionLine @ ''</p>''
       @ [newline] @ ''  '')
   }"

section \<open>Session state, rendering and batch download\<close>

text \<open>
  What the results container holds: markup assigned to its \<^verbatim>\<open>innerHTML\<close>, the button of id
  \<^verbatim>\<open>download-results\<close>, or a result element with its own \<^verbatim>\<open>innerHTML\<close>.
\<close>

datatype node = Markup string | DownloadButton | ResultDiv string

text \<open>What one round of the download loop does for its URL.\<close>

datatype outcome = Skipped | Failed error | Saved string

text \<open>
  The state of a session: the \<^verbatim>\<open>Set\<close> \<^verbatim>\<open>filesToDownload\<close> in its insertion order, the
  children of the results container (\<open>None\<close> when the page has no such element), and two
  logs of what left the program: the URLs requested from the search endpoints and the
  rounds of the download loop.
\<close>

record state =
  filesToDownload :: "string list"
  container :: "node list option"
  requested :: "string list"
  downloaded :: "outcome list"

definition initialState :: state where
  "initialState =
     \<lparr>filesToDownload = [], container = Some [], requested = [], downloaded = []\<rparr>"

text \<open>\<^verbatim>\<open>set.add(value)\<close>.\<close>

definition setAdd :: "string \<Rightarrow> string list \<Rightarrow> string list" where
  "setAdd v s = (if v \<in> set s then s else s @ [v])"

definition artifactUrl :: "string \<Rightarrow> string" where
  "artifactUrl d = ''https://static.prod.raid.org.au/raids/'' @ d @ ''.download/''"

text \<open>The destructuring at the head of the loop body of \<^verbatim>\<open>downloadFiles\<close>.\<close>

definition fallbackParts :: "string \<Rightarrow> error + string \<times> string" where
  "fallbackParts url =
     (let urlParts = split CHR ''/'' url;
          lastThreeParts = sliceLast3 urlParts
      in case lastThreeParts of
           [] \<Rightarrow> Inl TypeError
         | [prefix] \<Rightarrow> Inl TypeError
         | prefix # suffixWithDot # rest \<Rightarrow>
             (case split CHR ''.'' suffixWithDot of
                [] \<Rightarrow> Inr (prefix, ''undefined'')
              | suffix # others \<Rightarrow> Inr (prefix, suffix)))"

definition downloadName :: "string \<Rightarrow> string \<Rightarrow> string \<Rightarrow> string" where
  "downloadName url prefix suffix =
     (case pop (split CHR ''/'' url) of
        None \<Rightarrow> ''raid-'' @ prefix @ ''-'' @ suffix @ ''.json''
      | Some l \<Rightarrow> if l \<noteq> [] then l else ''raid-'' @ prefix @ ''-'' @ suffix @ ''.json'')"

text \<open>
  One round of the loop; \<open>fetchOk url\<close> tells whether \<^verbatim>\<open>fetch(url)\<close> and
  \<^verbatim>\<open>response.blob()\<close> succeed. An exception ends the round in the \<^verbatim>\<open>catch\<close> block.
\<close>

definition downloadOne :: "(string \<Rightarrow> bool) \<Rightarrow> string \<Rightarrow> outcome" where
  "downloadOne fetchOk url =
     (if url = [] then Skipped
      else (case fallbackParts url of
              Inl e \<Rightarrow> Failed e
            | Inr (prefix, suffix) \<Rightarrow>
                if \<not> fetchOk url then Failed FetchError
                else Saved (downloadName url prefix suffix)))"

definition downloadFiles :: "(string \<Rightarrow> bool) \<Rightarrow> string list \<Rightarrow> outcome list" where
  "downloadFiles fetchOk urls = map (downloadOne fetchOk) urls"

text \<open>The \<^verbatim>\<open>forEach\<close> of \<^verbatim>\<open>renderResults\<close>.\<close>

fun renderItems :: "SearchCriteria \<Rightarrow> Item list \<Rightarrow> state \<Rightarrow> state option" where
  "renderItems searchCriteria [] s = Some s"
| "renderItems searchCriteria (item # items) s = do {
     html \<leftarrow> createResultElement item searchCriteria;
     renderItems searchCriteria items
       (s\<lparr>container := map_option (\<lambda>children. children @ [ResultDiv html]) (container s),
          filesToDownload :=
            setAdd (artifactUrl (doi (attributes item))) (filesToDownload s)\<rparr>)
   }"

definition renderResults :: "ApiResponse \<Rightarrow> SearchCriteria \<Rightarrow> state \<Rightarrow> state option" where
  "renderResults response searchCriteria s =
     (if length (data response) = 0
      then Some (s\<lparr>container := Some [Markup ''<p>No results found</p>'']\<rparr>)
      else renderItems searchCriteria (data response)
             (s\<lparr>container := Some [DownloadButton]\<rparr>))"

text \<open>
  \<^verbatim>\<open>performSearch\<close> with the values it reads from the form: the five inputs and the value
  of the checked operator, if one is checked.
\<close>

definition performSearch ::
  "backend \<Rightarrow> SearchCriteria \<Rightarrow> string option \<Rightarrow> state \<Rightarrow> state option"
where
  "performSearch fetch searchCriteria operatorValue s =
     (case container s of
        None \<Rightarrow> Some s
      | Some children \<Rightarrow>
          (let operator = (case operatorValue of
                             None \<Rightarrow> ''AND''
                           | Some v \<Rightarrow> if v \<noteq> [] then v else ''AND'')
           in if \<not> hasAtLeastOneQuery searchCriteria then Some s
              else
                (let (urls, result) = searchDois fetch searchCriteria operator;
                     s1 = s\<lparr>container := Some [Markup ''Loading...''],
                            requested := requested s @ urls\<rparr>
                 in case result of
                      Inl e \<Rightarrow>
                        Some (s1\<lparr>container :=
                          Some [Markup ''<p>Error fetching results. Please try again.</p>'']\<rparr>)
                    | Inr response \<Rightarrow> renderResults response searchCriteria s1)))"

text \<open>
  What a user can do: submit the search form, or click the download button when the
  container shows one. The click runs \<^verbatim>\<open>downloadFiles(Array.from(filesToDownload))\<close>.
\<close>

datatype event =
  Submit backend SearchCriteria "string option"
| ClickDownload "string \<Rightarrow> bool"

fun step :: "event \<Rightarrow> state \<Rightarrow> state option" where
  "step (Submit fetch searchCriteria operatorValue) s =
     performSearch fetch searchCriteria operatorValue s"
| "step (ClickDownload fetchOk) s =
     (case container s of
        None \<Rightarrow> Some s
      | Some children \<Rightarrow>
          if DownloadButton \<in> set children
          then Some (s\<lparr>downloaded :=
                  downloaded s @ downloadFiles fetchOk (filesToDownload s)\<rparr>)
          else Some s)"

fun run :: "event list \<Rightarrow> state \<Rightarrow> state option" where
  "run [] s = Some s"
| "run (e # es) s = do { s' \<leftarrow> step e s; run es s' }"

section \<open>Notions of the specification\<close>

text \<open>
  The definitions of this section come from the words of the specification, not from the
  program; the theorems below compare the program with them.
\<close>

text \<open>A blank text: empty, or white space only.\<close>

definition blank :: "string \<Rightarrow> bool" where
  "blank s = list_all isWhiteSpace s"

text \<open>
  Case-insensitive equality of two texts, and a query occurring at the start of a text.
\<close>

definition ciEqual :: "string \<Rightarrow> string \<Rightarrow> bool" where
  "ciEqual a b = (map canonicalize a = map canonicalize b)"

definition occursAt :: "string \<Rightarrow> string \<Rightarrow> bool" where
  "occursAt q t = (length q \<le> length t \<and> ciEqual (take (length q) t) q)"

text \<open>
  A text cut from left to right into the occurrences of a query, none overlapping another,
  and the characters between them. An occurrence is shown inside an emphasis marker; its
  source is the text itself.
\<close>

datatype segment = Plain char | Marked string

function segments :: "string \<Rightarrow> string \<Rightarrow> segment list" where
  "segments q [] = []"
| "segments q (c # t) =
     (if q \<noteq> [] \<and> occursAt q (c # t)
      then Marked (take (length q) (c # t)) # segments q (drop (length q) (c # t))
      else Plain c # segments q t)"
  by pat_completeness auto
termination
  by (relation "measure (\<lambda>(q, t). length t)") auto

fun render :: "segment \<Rightarrow> string" where
  "render (Plain c) = [c]"
| "render (Marked m) = ''<mark>'' @ m @ ''</mark>''"

fun source :: "segment \<Rightarrow> string" where
  "source (Plain c) = [c]"
| "source (Marked m) = m"

definition highlighted :: "string \<Rightarrow> string \<Rightarrow> string" where
  "highlighted q t = concat (map render (segments q t))"

text \<open>The trailing path segment of a URL: what follows its last slash.\<close>

definition finalSegment :: "string \<Rightarrow> string" where
  "finalSegment s = rev (takeWhile (\<lambda>c. c \<noteq> CHR ''/'') (rev s))"

text \<open>
  The name identifiers of all contributors of a record, those of the organisation
  registry among them, and the link shown for one.
\<close>

definition allNameIdentifiers :: "Attributes \<Rightarrow> string list" where
  "allNameIdentifiers attrs =
     (case contributors attrs of
        None \<Rightarrow> []
      | Some cs \<Rightarrow>
          concat (map (\<lambda>c. case nameIdentifiers c of
                             None \<Rightarrow> []
                           | Some ids \<Rightarrow> map nameIdentifier ids) cs))"

definition registryIdentifiers :: "Attributes \<Rightarrow> string list" where
  "registryIdentifiers attrs =
     filter (\<lambda>v. includesStr v ''ror.org'') (allNameIdentifiers attrs)"

definition organisationLink :: "SearchCriteria \<Rightarrow> string \<Rightarrow> string" where
  "organisationLink searchCriteria v =
     anchor (''https://ror.org/'' @ finalSegment v)
       (highlighted (organisation searchCriteria) v)"

definition organisationsShown :: "Attributes \<Rightarrow> SearchCriteria \<Rightarrow> string" where
  "organisationsShown attrs sc =
     (if registryIdentifiers attrs = [] then ''No organisations''
      else join '' & '' (map (organisationLink sc) (registryIdentifiers attrs)))"

text \<open>
  The clause table of the query compiler: for each field the text before its value, the
  value, and the text after it. The compiled query has one clause for each field whose
  value is present, the value percent-encoded; \<open>present\<close> is what decides that a field
  has a value.
\<close>

definition fieldClauses :: "'u Criteria \<Rightarrow> (string \<times> 'u list \<times> string) list" where
  "fieldClauses sc =
     [(''titles.title:*'', title sc, ''*''),
      (''descriptions.description:*'', description sc, ''*''),
      (''creators.name:'' @ [dquote], creator sc, [dquote]),
      (''relatedIdentifiers.relatedIdentifier:'' @ [dquote], related sc, [dquote]),
      (''contributors.nameIdentifiers.nameIdentifier:'' @ [dquote], organisation sc,
       [dquote])]"

definition clausesWhere :: "(string \<Rightarrow> bool) \<Rightarrow> SearchCriteria \<Rightarrow> string list" where
  "clausesWhere present sc =
     map (\<lambda>(opening, v, closing). opening @ encodeURIComponent v @ closing)
       (filter (\<lambda>(opening, v, closing). present v) (fieldClauses sc))"

definition compiledQuery :: "(string \<Rightarrow> bool) \<Rightarrow> SearchCriteria \<Rightarrow> string \<Rightarrow> string" where
  "compiledQuery present sc operator =
     ''(identifiers.identifier:*raid.org.au* AND (''
       @ join ('' '' @ operator @ '' '') (clausesWhere present sc) @ ''))''"

text \<open>
  On all strings: the code points of a string that has no lone surrogate, the
  percent-encoding of a code point and of such a string, and the compiled query with
  these encodings.
\<close>

fun codePoints :: "utf16 \<Rightarrow> nat list option" where
  "codePoints [] = Some []"
| "codePoints [u] = (if isSurrogate u then None else Some [unat u])"
| "codePoints (u # v # r) =
     (if \<not> isSurrogate u then map_option ((#) (unat u)) (codePoints (v # r))
      else if isTrailing u \<or> \<not> isTrailing v then None
      else map_option ((#) (pairPoint u v)) (codePoints r))"

definition wellFormed :: "utf16 \<Rightarrow> bool" where
  "wellFormed v = (codePoints v \<noteq> None)"

definition encodePoint :: "nat \<Rightarrow> string" where
  "encodePoint n =
     (if n < 128 \<and> uriUnreserved (char_of n) then [char_of n]
      else concat (map percentByte (utf8Bytes n)))"

definition percentEncoding :: "utf16 \<Rightarrow> string" where
  "percentEncoding v =
     (case codePoints v of None \<Rightarrow> [] | Some points \<Rightarrow> concat (map encodePoint points))"

definition clausesWhere16 :: "(utf16 \<Rightarrow> bool) \<Rightarrow> SearchCriteria16 \<Rightarrow> string list" where
  "clausesWhere16 present sc =
     map (\<lambda>(opening, v, closing). opening @ percentEncoding v @ closing)
       (filter (\<lambda>(opening, v, closing). present v) (fieldClauses sc))"

definition compiledQuery16 ::
  "(utf16 \<Rightarrow> bool) \<Rightarrow> SearchCriteria16 \<Rightarrow> string \<Rightarrow> string"
where
  "compiledQuery16 present sc operator =
     ''(identifiers.identifier:*raid.org.au* AND (''
       @ join ('' '' @ operator @ '' '') (clausesWhere16 present sc) @ ''))''"

definition fieldValues :: "'u Criteria \<Rightarrow> 'u list list" where
  "fieldValues sc = [title sc, description sc, creator sc, related sc, organisation sc]"

text \<open>A percent-encoded text: unreserved marks, and \<^verbatim>\<open>%\<close> before two hexadecimal digits.\<close>

definition isHexDigit :: "char \<Rightarrow> bool" where
  "isHexDigit c = (c \<in> set ''0123456789ABCDEF'')"

fun percentEncoded :: "string \<Rightarrow> bool" where
  "percentEncoded [] = True"
| "percentEncoded [c] = uriUnreserved c"
| "percentEncoded [c, d] = (uriUnreserved c \<and> uriUnreserved d)"
| "percentEncoded (c # h1 # h2 # r) =
     (if c = CHR ''%'' then isHexDigit h1 \<and> isHexDigit h2 \<and> percentEncoded r
      else uriUnreserved c \<and> percentEncoded (h1 # h2 # r))"

text \<open>
  The fan-out: the URL requested from an endpoint, the responses among the outcomes in
  the order of the outcomes, and their data one after the other.
\<close>

definition requestUrl :: "string \<Rightarrow> SearchCriteria \<Rightarrow> string \<Rightarrow> string" where
  "requestUrl api sc operator =
     api @ ''?query='' @ queryString sc operator @ ''&page[size]=10000''"

definition successes :: "(error + json) list \<Rightarrow> ApiResponse list" where
  "successes outcomes =
     concat (map (\<lambda>outcome. case outcome of
                                Inr (WithData v) \<Rightarrow> [v]
                              | _ \<Rightarrow> []) outcomes)"

definition mergedData :: "(error + json) list \<Rightarrow> Item list" where
  "mergedData outcomes = concat (map data (successes outcomes))"

text \<open>
  The merged data as the specification words it, in the order in which the endpoints
  complete: \<open>completes api\<close> is the time at which the request to \<open>api\<close> settles.
\<close>

definition completionOrderData ::
  "(string \<Rightarrow> nat) \<Rightarrow> string list \<Rightarrow> backend \<Rightarrow> SearchCriteria \<Rightarrow> string \<Rightarrow> Item list"
where
  "completionOrderData completes endpoints fetch sc operator =
     mergedData (map (\<lambda>api. fetch (requestUrl api sc operator))
                   (sort_key completes endpoints))"

text \<open>
  The download name as the specification words it: the final path segment, or else the
  fallback built from the first two of the last three path segments.
\<close>

definition fallbackName :: "string \<Rightarrow> string option" where
  "fallbackName url =
     (case sliceLast3 (split CHR ''/'' url) of
        prefix # second # rest \<Rightarrow>
          Some (''raid-'' @ prefix @ ''-'' @ takeWhile (\<lambda>c. c \<noteq> CHR ''.'') second
                  @ ''.json'')
      | _ \<Rightarrow> None)"

definition chosenName :: "string \<Rightarrow> string option" where
  "chosenName url =
     (if finalSegment url \<noteq> [] then Some (finalSegment url) else fallbackName url)"

text \<open>
  A set of artifact URLs that has only grown: the old elements in their places, new ones
  after them, each of the form of an artifact URL, and still without duplicates.
\<close>

definition grows :: "string list \<Rightarrow> string list \<Rightarrow> bool" where
  "grows fs fs' =
     (\<exists>added. fs' = fs @ added \<and> (\<forall>u\<in>set added. \<exists>d. u = artifactUrl d)
        \<and> (distinct fs \<longrightarrow> distinct fs'))"

section \<open>Example inputs\<close>

definition exampleItem :: "string \<Rightarrow> Item" where
  "exampleItem d =
     \<lparr>attributes = \<lparr>doi = d, titles = None, creators = None, relatedIdentifiers = None,
        contributors = None, descriptions = None\<rparr>\<rparr>"

definition exampleCriteria :: SearchCriteria where
  "exampleCriteria =
     \<lparr>title = ''data'', description = [], creator = [], related = [], organisation = []\<rparr>"

definition exampleBlankCriteria :: SearchCriteria where
  "exampleBlankCriteria =
     \<lparr>title = ''data'', description = '' '', creator = [], related = [], organisation = []\<rparr>"

definition rorItem :: Item where
  "rorItem =
     \<lparr>attributes = \<lparr>doi = ''10.1/x'', titles = None, creators = None,
        relatedIdentifiers = None,
        contributors = Some [\<lparr>contributor_name = ''C'', nameIdentifiers = Some
          [\<lparr>nameIdentifier = ''https://orcid.org/0000-0001''\<rparr>,
           \<lparr>nameIdentifier = ''https://ror.org/0123abcd''\<rparr>]\<rparr>],
        descriptions = None\<rparr>\<rparr>"

definition noCriteria :: SearchCriteria where
  "noCriteria =
     \<lparr>title = [], description = ''no'', creator = [], related = [], organisation = []\<rparr>"

definition emptyCriteria :: SearchCriteria where
  "emptyCriteria =
     \<lparr>title = [], description = [], creator = [], related = [], organisation = []\<rparr>"

definition spacesCriteria :: SearchCriteria where
  "spacesCriteria =
     \<lparr>title = ''  '', description = [], creator = '' '', related = [], organisation = []\<rparr>"

definition pairCriteria :: SearchCriteria16 where
  "pairCriteria =
     \<lparr>title = widen ''open data'', description = [], creator = [0xD83D, 0xDE00],
      related = [], organisation = []\<rparr>"

definition loneCriteria :: SearchCriteria16 where
  "loneCriteria =
     \<lparr>title = widen ''open data'', description = [], creator = [0xD83D],
      related = [], organisation = []\<rparr>"

definition unreachable :: backend where
  "unreachable url = Inl FetchError"

definition noDataBackend :: backend where
  "noDataBackend url = Inr WithoutData"

definition backendA :: backend where
  "backendA url = Inr (WithData \<lparr>data = [exampleItem ''10.1/a'', exampleItem ''10.1/a'']\<rparr>)"

definition backendB :: backend where
  "backendB url = Inr (WithData \<lparr>data = [exampleItem ''10.1/b'']\<rparr>)"

definition alwaysOk :: "string \<Rightarrow> bool" where
  "alwaysOk url = True"

definition exampleSession :: "event list" where
  "exampleSession =
     [Submit backendA exampleCriteria None, ClickDownload alwaysOk,
      Submit backendB exampleCriteria (Some ''OR''), Submit unreachable exampleCriteria None]"

section \<open>Facts about the library functions\<close>

lemma includesStr_iff: "includesStr s n \<longleftrightarrow> (\<exists>pre post. s = pre @ n @ post)"
proof (induction s)
  case Nil
  show ?case by auto
next
  case (Cons c cs)
  show ?case
  proof
    assume "includesStr (c # cs) n"
    then consider "take (length n) (c # cs) = n" | "includesStr cs n" by auto
    then show "\<exists>pre post. c # cs = pre @ n @ post"
    proof cases
      case 1
      then have "c # cs = [] @ n @ drop (length n) (c # cs)"
        by (metis append_Nil append_take_drop_id)
      then show ?thesis by blast
    next
      case 2
      then obtain pre post where "cs = pre @ n @ post" using Cons.IH by blast
      then have "c # cs = (c # pre) @ n @ post" by simp
      then show ?thesis by blast
    qed
  next
    assume "\<exists>pre post. c # cs = pre @ n @ post"
    then obtain pre post where eq: "c # cs = pre @ n @ post" by blast
    show "includesStr (c # cs) n"
    proof (cases pre)
      case Nil
      then have "take (length n) (c # cs) = n" using eq by simp
      then show ?thesis by simp
    next
      case (Cons p pre')
      then have "cs = pre' @ n @ post" using eq by simp
      then have "includesStr cs n" using Cons.IH by blast
      then show ?thesis by simp
    qed
  qed
qed

lemma split_not_Nil: "split sep s \<noteq> []"
  by (induction s) (auto split: list.splits)

lemma split_no_sep: "sep \<notin> set s \<Longrightarrow> split sep s = [s]"
  by (induction s) auto

lemma split_append_sep: "split sep (a @ sep # b) = split sep a @ split sep b"
proof (induction a)
  case Nil
  show ?case by simp
next
  case (Cons c a)
  obtain p ps where "split sep a = p # ps"
    using split_not_Nil [of sep a] by (cases "split sep a") auto
  then show ?case using Cons.IH by simp
qed

lemma last_split: "last (split sep s) = rev (takeWhile (\<lambda>c. c \<noteq> sep) (rev s))"
proof (cases "sep \<in> set s")
  case False
  then have "\<forall>c\<in>set (rev s). c \<noteq> sep" by auto
  then have tw: "takeWhile (\<lambda>c. c \<noteq> sep) (rev s) = rev s"
    by (rule takeWhile_eq_all_conv [THEN iffD2])
  show ?thesis by (simp only: split_no_sep [OF False] tw rev_rev_ident last.simps) simp
next
  case True
  then obtain a b where s: "s = a @ sep # b" and b: "sep \<notin> set b"
    by (meson split_list_last)
  have "takeWhile (\<lambda>c. c \<noteq> sep) (rev b @ sep # rev a) = rev b"
    using b by (auto simp: takeWhile_tail)
  then show ?thesis using s b by (simp add: split_append_sep split_no_sep)
qed

lemma hd_split: "hd (split sep s) = takeWhile (\<lambda>c. c \<noteq> sep) s"
proof (induction s)
  case Nil
  show ?case by simp
next
  case (Cons c s)
  obtain p ps where "split sep s = p # ps"
    using split_not_Nil [of sep s] by (cases "split sep s") auto
  then show ?case using Cons.IH by simp
qed

lemma pop_split: "pop (split CHR ''/'' s) = Some (finalSegment s)"
  by (simp add: pop_def split_not_Nil last_split finalSegment_def)

lemma sliceDrop3_append: "3 \<le> length y \<Longrightarrow> sliceDrop3 (x @ y) = x @ sliceDrop3 y"
  by (simp add: sliceDrop3_def)

lemma sliceDrop3_join:
  "vs \<noteq> [] \<Longrightarrow> sliceDrop3 (concat (map (\<lambda>v. f v @ '' & '') vs)) = join '' & '' (map f vs)"
proof (induction vs rule: induct_list012)
  case 1
  then show ?case by simp
next
  case (2 v)
  show ?case by (simp add: sliceDrop3_def)
next
  case (3 v w vs)
  let ?rest = "concat (map (\<lambda>v. f v @ '' & '') (w # vs))"
  have "3 \<le> length ?rest" by simp
  then have "sliceDrop3 ((f v @ '' & '') @ ?rest) = (f v @ '' & '') @ sliceDrop3 ?rest"
    by (rule sliceDrop3_append)
  then show ?case using 3 by simp
qed

lemma links_empty_iff: "concat (map (\<lambda>v. f v @ '' & '') vs) = [] \<longleftrightarrow> vs = []"
  by (cases vs) simp_all

lemma length_split: "length (split sep s) = Suc (length (filter (\<lambda>c. c = sep) s))"
proof (induction s)
  case Nil
  show ?case by simp
next
  case (Cons c s)
  obtain p ps where "split sep s = p # ps"
    using split_not_Nil [of sep s] by (cases "split sep s") auto
  then show ?case using Cons.IH by simp
qed

lemma split_two: "sep \<in> set s \<Longrightarrow> 2 \<le> length (split sep s)"
proof -
  assume "sep \<in> set s"
  then have "Suc 0 \<le> length (filter (\<lambda>c. c = sep) s)" by (induction s) auto
  then show ?thesis by (simp add: length_split)
qed

lemma sliceLast3_two: "2 \<le> length xs \<Longrightarrow> \<exists>a b r. sliceLast3 xs = a # b # r"
proof -
  assume "2 \<le> length xs"
  then have len: "2 \<le> length (sliceLast3 xs)" by (simp add: sliceLast3_def)
  then obtain a t where t: "sliceLast3 xs = a # t" by (cases "sliceLast3 xs") auto
  then obtain b r where "t = b # r" using len by (cases t) auto
  then show ?thesis using t by blast
qed

lemma trim_Nil_iff: "trim s = [] \<longleftrightarrow> blank s"
proof -
  have "dropWhile isWhiteSpace (rev (dropWhile isWhiteSpace s)) = []
      \<longleftrightarrow> dropWhile isWhiteSpace s = []"
  proof (cases "dropWhile isWhiteSpace s")
    case Nil
    show ?thesis unfolding Nil by simp
  next
    case (Cons c r)
    then have "\<not> isWhiteSpace c" by (metis hd_dropWhile list.distinct(1) list.sel(1))
    then show ?thesis using Cons by (auto simp: dropWhile_eq_Nil_conv)
  qed
  then show ?thesis
    by (simp add: trim_def blank_def dropWhile_eq_Nil_conv list_all_iff)
qed

lemma trim_not_Nil: "trim v \<noteq> [] \<Longrightarrow> v \<noteq> []"
  by (auto simp: trim_def)

section \<open>Facts about the highlight engine\<close>

lemma escapeClass_syntaxCharacters: "set escapeClass = set syntaxCharacters"
  by (auto simp: escapeClass_def syntaxCharacters_def)

lemma backslash_syntax: "backslash \<in> set syntaxCharacters"
  by (simp add: syntaxCharacters_def)

lemma escapeQuery_Nil: "escapeQuery [] = []"
  by (simp add: escapeQuery_def)

lemma escapeQuery_Cons:
  "escapeQuery (c # q) =
     (if c \<in> set syntaxCharacters then [backslash, c] else [c]) @ escapeQuery q"
  by (simp add: escapeQuery_def escapeClass_syntaxCharacters backslash_def)

lemma parseAtoms_escaped: "parseAtoms (escapeQuery q @ '')'') = Some (q, '')'')"
proof (induction q)
  case Nil
  show ?case by (simp add: escapeQuery_Nil syntaxCharacters_def backslash_def)
next
  case (Cons c q)
  obtain d r where rest: "escapeQuery q @ '')'' = d # r"
    by (cases "escapeQuery q @ '')''") auto
  show ?case
  proof (cases "c \<in> set syntaxCharacters")
    case True
    then show ?thesis using Cons.IH by (simp add: escapeQuery_Cons)
  next
    case False
    then have "c \<noteq> backslash" using backslash_syntax by auto
    then show ?thesis using False Cons.IH rest by (simp add: escapeQuery_Cons)
  qed
qed

lemma newRegExp_escaped: "newRegExp (''('' @ escapeQuery q @ '')'') = Some q"
  by (simp add: newRegExp_def parseAtoms_escaped)

lemma highlightText_eq:
  "highlightText text query =
     Some (if query = [] then text else replaceGlobal query ''<mark>$1</mark>'' text)"
  using newRegExp_escaped [of query] by (simp add: highlightText_def)

lemma mark_template: "getSubstitution m [m] ''<mark>$1</mark>'' = ''<mark>'' @ m @ ''</mark>''"
  by (simp add: captureIndex_def)

lemma matchAtoms_occursAt:
  "matchAtoms q t = (if occursAt q t then Some (take (length q) t) else None)"
proof (induction q arbitrary: t)
  case Nil
  show ?case by (simp add: occursAt_def ciEqual_def)
next
  case (Cons a q)
  show ?case
  proof (cases t)
    case Nil
    then show ?thesis by (simp add: occursAt_def)
  next
    case (Cons c t')
    then show ?thesis using Cons.IH [of t']
      by (auto simp: occursAt_def ciEqual_def)
  qed
qed

lemma replaceGlobal_segments:
  "q \<noteq> [] \<Longrightarrow> replaceGlobal q ''<mark>$1</mark>'' t = concat (map render (segments q t))"
proof (induction q t rule: segments.induct)
  case (1 q)
  then show ?case by (cases q) simp_all
next
  case (2 q c t)
  show ?case
  proof (cases "occursAt q (c # t)")
    case True
    then have len: "min (Suc (length t)) (length q) = length q"
      by (simp add: occursAt_def)
    have ne: "take (length q) (c # t) \<noteq> []"
      using 2(3) by (cases q) simp_all
    show ?thesis
      using True 2(1) 2(3) ne
      by (simp add: matchAtoms_occursAt mark_template len del: getSubstitution.simps take_Suc_Cons drop_Suc_Cons)
  next
    case False
    then show ?thesis
      using 2(2) 2(3) by (simp add: matchAtoms_occursAt)
  qed
qed

lemma source_segments: "concat (map source (segments q t)) = t"
proof (induction q t rule: segments.induct)
  case (1 q)
  show ?case by simp
next
  case (2 q c t)
  show ?case
  proof (cases "q \<noteq> [] \<and> occursAt q (c # t)")
    case True
    then have "concat (map source (segments q (c # t))) =
        take (length q) (c # t) @ drop (length q) (c # t)"
      using 2(1) by simp
    then show ?thesis by (simp only: append_take_drop_id)
  next
    case False
    then show ?thesis using 2(2) by auto
  qed
qed

lemma marked_segments: "Marked m \<in> set (segments q t) \<Longrightarrow> ciEqual m q"
proof (induction q t rule: segments.induct)
  case (1 q)
  then show ?case by simp
next
  case (2 q c t)
  then show ?case by (auto simp: occursAt_def split: if_splits)
qed

lemma segments_empty_query: "segments [] t = map Plain t"
  by (induction t) simp_all

lemma highlighted_empty_query: "highlighted [] t = t"
  by (induction t) (simp_all add: highlighted_def segments_empty_query)

lemma highlightText_highlighted: "highlightText t q = Some (highlighted q t)"
proof (cases "q = []")
  case True
  then show ?thesis by (simp add: highlightText_def highlighted_empty_query)
next
  case False
  then show ?thesis
    by (simp add: highlightText_eq replaceGlobal_segments highlighted_def)
qed

lemma segments_suffix:
  "segments q t = pre @ rest \<Longrightarrow> rest = segments q (concat (map source rest))"
proof (induction pre arbitrary: t)
  case Nil
  then have "rest = segments q t" by simp
  then show ?case by (simp add: source_segments)
next
  case (Cons p pre)
  then obtain c t' where t: "t = c # t'" by (cases t) auto
  show ?case
  proof (cases "q \<noteq> [] \<and> occursAt q (c # t')")
    case True
    then have "segments q (drop (length q) (c # t')) = pre @ rest"
      using Cons.prems t by simp
    then show ?thesis by (rule Cons.IH)
  next
    case False
    then have "segments q t' = pre @ rest" using Cons.prems t by auto
    then show ?thesis by (rule Cons.IH)
  qed
qed

lemma segments_plain:
  assumes "segments q t = pre @ Plain c # post" and "q \<noteq> []"
  shows "\<not> occursAt q (c # concat (map source post))"
proof
  assume occ: "occursAt q (c # concat (map source post))"
  have "Plain c # post = segments q (concat (map source (Plain c # post)))"
    using assms(1) by (rule segments_suffix)
  then have "Plain c # post = segments q (c # concat (map source post))" by simp
  then show False using occ assms(2) by simp
qed

lemma segments_marked:
  assumes "segments q t = pre @ Marked m # post"
  shows "occursAt q (m @ concat (map source post)) \<and> length m = length q"
proof -
  have eq: "Marked m # post = segments q (concat (map source (Marked m # post)))"
    using assms by (rule segments_suffix)
  let ?u = "m @ concat (map source post)"
  have eq': "Marked m # post = segments q ?u" using eq by simp
  then obtain c u' where u: "?u = c # u'" by (cases ?u) auto
  have occ: "q \<noteq> [] \<and> occursAt q (c # u')"
    using eq' u by (auto split: if_splits)
  then have "m = take (length q) (c # u')" using eq' u by auto
  moreover have "length q \<le> length (c # u')" using occ by (simp add: occursAt_def)
  ultimately have "length m = length q" by simp
  then show ?thesis using occ u by simp
qed

text \<open>
  Claim C4. For a query that is not empty (so for every query that is not blank),
  \<^verbatim>\<open>highlightText\<close> escapes the syntax characters of the pattern grammar, all of them,
  so that the compiled pattern is the query itself, character by character. Its result is the text cut from left to right into pieces, each
  occurrence of the query inside \<^verbatim>\<open><mark>\<close> and \<^verbatim>\<open></mark>\<close>: the pieces put together
  without the markers are the text, so the matched text keeps its casing and everything
  else is unchanged; a marked piece is as long as the query and equal to it without
  regard to case; where a piece is a single unmarked character, the query does not occur
  at that place of the text, and where a piece is marked, it does. The two examples of
  the specification hold.
\<close>

theorem highlightText_marks_occurrences:
  assumes "query \<noteq> []"
  shows "set escapeClass = set syntaxCharacters
    \<and> newRegExp (''('' @ escapeQuery query @ '')'') = Some query
    \<and> highlightText t query = Some (concat (map render (segments query t)))
    \<and> concat (map source (segments query t)) = t
    \<and> (\<forall>m. Marked m \<in> set (segments query t) \<longrightarrow> ciEqual m query)
    \<and> (\<forall>pre c post. segments query t = pre @ Plain c # post \<longrightarrow>
          \<not> occursAt query (c # concat (map source post)))
    \<and> (\<forall>pre m post. segments query t = pre @ Marked m # post \<longrightarrow>
          occursAt query (m @ concat (map source post)) \<and> length m = length query)
    \<and> highlightText ''Data Management Plan'' ''data''
        = Some ''<mark>Data</mark> Management Plan''
    \<and> highlightText ''a.b.c'' ''.'' = Some ''a<mark>.</mark>b<mark>.</mark>c''"
proof -
  have "highlightText t query = Some (concat (map render (segments query t)))"
    using assms by (simp add: highlightText_eq replaceGlobal_segments)
  moreover have "highlightText ''Data Management Plan'' ''data''
      = Some ''<mark>Data</mark> Management Plan''"
    by code_simp
  moreover have "highlightText ''a.b.c'' ''.'' = Some ''a<mark>.</mark>b<mark>.</mark>c''"
    by code_simp
  moreover have "\<forall>pre c post. segments query t = pre @ Plain c # post \<longrightarrow>
          \<not> occursAt query (c # concat (map source post))"
    using segments_plain assms by blast
  moreover have "\<forall>pre m post. segments query t = pre @ Marked m # post \<longrightarrow>
          occursAt query (m @ concat (map source post)) \<and> length m = length query"
    using segments_marked by blast
  moreover have "\<forall>m. Marked m \<in> set (segments query t) \<longrightarrow> ciEqual m query"
    using marked_segments by blast
  ultimately show ?thesis
    using escapeClass_syntaxCharacters newRegExp_escaped source_segments by simp
qed

theorem highlightText_marks_occurrences_witness:
  "''Plan'' \<noteq> []
   \<and> newRegExp (''('' @ escapeQuery ''Plan'' @ '')'') = Some ''Plan''
   \<and> highlightText ''a plan, a PLAN'' ''Plan''
       = Some (concat (map render (segments ''Plan'' ''a plan, a PLAN'')))
   \<and> concat (map source (segments ''Plan'' ''a plan, a PLAN'')) = ''a plan, a PLAN''"
proof -
  have h: "''Plan'' \<noteq> []" by simp
  show ?thesis
    using h highlightText_marks_occurrences [OF h, of "''a plan, a PLAN''"] by blast
qed

text \<open>
  Claim C7, as the specification states it, fails for a query of white space: the query
  \<^verbatim>\<open>" "\<close> is blank, and the space of \<^verbatim>\<open>"a b"\<close> is marked.
\<close>

theorem highlightText_blank_query_counterexample:
  "blank '' '' \<and> highlightText ''a b'' '' '' = Some ''a<mark> </mark>b''
   \<and> highlightText ''a b'' '' '' \<noteq> Some ''a b''"
  by code_simp

text \<open>
  Claim C7, amended. For the empty query \<^verbatim>\<open>highlightText\<close> returns the text unchanged
  (its guard is \<^verbatim>\<open>!query\<close>, which a query of white space passes).
\<close>

theorem highlightText_empty_query: "highlightText t [] = Some t"
  by (simp add: highlightText_def)

theorem highlightText_empty_query_witness:
  "highlightText ''Data Management Plan'' [] = Some ''Data Management Plan''"
  using highlightText_empty_query [of "''Data Management Plan''"] by simp

section \<open>Facts about the result projection\<close>

lemma nameIdsLoop_eq:
  "nameIdsLoop sc ids acc =
     Some (acc @ concat (map (\<lambda>v. organisationLink sc v @ '' & '')
                     (filter (\<lambda>v. includesStr v ''ror.org'') (map nameIdentifier ids))))"
proof (induction ids arbitrary: acc)
  case Nil
  show ?case by simp
next
  case (Cons i ids)
  show ?case
  proof (cases "includesStr (nameIdentifier i) ''ror.org''")
    case True
    then have "nameIdentifier i \<noteq> []" by (cases "nameIdentifier i") auto
    then show ?thesis
      using True by (simp add: Cons.IH pop_split organisationLink_def highlightText_highlighted
          highlighted_empty_query del: includesStr.simps)
  next
    case False
    then show ?thesis by (simp add: Cons.IH del: includesStr.simps)
  qed
qed

lemma contributorsLoop_eq:
  "contributorsLoop sc cs acc =
     Some (acc @ concat (map (\<lambda>v. organisationLink sc v @ '' & '')
        (filter (\<lambda>v. includesStr v ''ror.org'')
           (concat (map (\<lambda>c. case nameIdentifiers c of
                             None \<Rightarrow> []
                           | Some ids \<Rightarrow> map nameIdentifier ids) cs)))))"
proof (induction cs arbitrary: acc)
  case Nil
  show ?case by simp
next
  case (Cons c cs)
  show ?case
    by (cases "nameIdentifiers c") (simp_all add: Cons.IH nameIdsLoop_eq)
qed

lemma renderOrganisationsLinks_eq:
  "renderOrganisationsLinks attrs sc =
     Some (join '' & '' (map (organisationLink sc) (registryIdentifiers attrs)))"
proof (cases "contributors attrs")
  case None
  then show ?thesis
    by (simp add: renderOrganisationsLinks_def registryIdentifiers_def allNameIdentifiers_def)
next
  case (Some cs)
  have loop: "contributorsLoop sc cs [] =
      Some (concat (map (\<lambda>v. organisationLink sc v @ '' & '') (registryIdentifiers attrs)))"
    using Some by (simp add: contributorsLoop_eq registryIdentifiers_def allNameIdentifiers_def)
  show ?thesis
  proof (cases "registryIdentifiers attrs = []")
    case True
    then show ?thesis using Some loop by (simp add: renderOrganisationsLinks_def)
  next
    case False
    then have "cs \<noteq> []" using Some
      by (auto simp: registryIdentifiers_def allNameIdentifiers_def)
    then show ?thesis using Some False loop
      by (simp add: renderOrganisationsLinks_def links_empty_iff sliceDrop3_join)
  qed
qed

lemma join_not_Nil: "xs \<noteq> [] \<Longrightarrow> hd xs \<noteq> [] \<Longrightarrow> join sep xs \<noteq> []"
  by (induction xs rule: induct_list012) simp_all

lemma organisationLink_not_Nil: "organisationLink sc v \<noteq> []"
  by (simp add: organisationLink_def anchor_def)

lemma mapOption_returns:
  "(\<And>x. \<exists>y. f x = Some y) \<Longrightarrow> \<exists>ys. mapOption f xs = Some ys"
proof (induction xs)
  case Nil
  show ?case by simp
next
  case (Cons x xs)
  obtain y where "f x = Some y" using Cons.prems by blast
  moreover obtain ys where "mapOption f xs = Some ys" using Cons by blast
  ultimately show ?case by simp
qed

lemma renderTitles_returns: "\<exists>r. renderTitles attrs sc = Some r"
proof (cases "titles attrs")
  case None
  then show ?thesis by (simp add: renderTitles_def)
next
  case (Some ts)
  have "\<exists>hs. mapOption (\<lambda>t. if title sc \<noteq> []
                               then highlightText (title_text t) (title sc)
                               else Some (title_text t)) ts = Some hs"
    by (rule mapOption_returns) (simp add: highlightText_highlighted)
  then show ?thesis using Some by (auto simp: renderTitles_def Let_def)
qed

lemma renderDoiLink_returns: "\<exists>r. renderDoiLink attrs sc = Some r"
  by (simp add: renderDoiLink_def highlightText_highlighted)

lemma creatorsLoop_returns: "\<exists>r. creatorsLoop sc cs acc = Some r"
  by (induction cs arbitrary: acc) (simp_all add: highlightText_highlighted)

lemma relatedLoop_returns: "\<exists>r. relatedLoop sc rs acc = Some r"
  by (induction rs arbitrary: acc) (simp_all add: highlightText_highlighted)

lemma renderCreatorsLinks_returns: "\<exists>r. renderCreatorsLinks attrs sc = Some r"
  using creatorsLoop_returns by (auto simp: renderCreatorsLinks_def split: option.splits)

lemma renderRelatedIdentifiersLinks_returns:
  "\<exists>r. renderRelatedIdentifiersLinks attrs sc = Some r"
  using relatedLoop_returns
  by (auto simp: renderRelatedIdentifiersLinks_def split: option.splits)

lemma renderDescription_returns: "\<exists>r. renderDescription attrs sc = Some r"
  by (simp add: renderDescription_def highlightText_highlighted)

lemma renderDescription_eq:
  "renderDescription attrs sc = Some (highlighted (description sc) (firstDescription attrs))"
  by (simp add: renderDescription_def highlightText_highlighted highlighted_empty_query)

lemma orElse_organisations:
  "orElse (join '' & '' (map (organisationLink sc) (registryIdentifiers attrs)))
     ''No organisations'' = organisationsShown attrs sc"
proof (cases "registryIdentifiers attrs = []")
  case True
  then show ?thesis by (simp add: orElse_def organisationsShown_def)
next
  case False
  then have "join '' & '' (map (organisationLink sc) (registryIdentifiers attrs)) \<noteq> []"
    by (intro join_not_Nil) (simp_all add: hd_map organisationLink_not_Nil)
  then show ?thesis using False by (simp add: orElse_def organisationsShown_def)
qed

lemma createResultElement_eq:
  "\<exists>t d c r. createResultElement item sc =
     Some ([newline] @ ''      <h3>'' @ t @ ''</h3>''
       @ [newline] @ ''      <p>RAiD: '' @ d @ ''</p>''
       @ [newline] @ ''      <p>Creators: '' @ c @ ''</p>''
       @ [newline] @ ''      <p>Related Identifiers: '' @ r @ ''</p>''
       @ [newline] @ ''      <p>Organisations: ''
       @ organisationsShown (attributes item) sc @ ''</p>''
       @ [newline] @ ''      <p>Description: ''
       @ highlighted (description sc) (firstDescription (attributes item)) @ ''</p>''
       @ [newline] @ ''  '')"
proof -
  obtain t where "renderTitles (attributes item) sc = Some t"
    using renderTitles_returns by blast
  moreover obtain d where "renderDoiLink (attributes item) sc = Some d"
    using renderDoiLink_returns by blast
  moreover obtain c where "renderCreatorsLinks (attributes item) sc = Some c"
    using renderCreatorsLinks_returns by blast
  moreover obtain r where "renderRelatedIdentifiersLinks (attributes item) sc = Some r"
    using renderRelatedIdentifiersLinks_returns by blast
  ultimately have "createResultElement item sc =
     Some ([newline] @ ''      <h3>'' @ t @ ''</h3>''
       @ [newline] @ ''      <p>RAiD: '' @ d @ ''</p>''
       @ [newline] @ ''      <p>Creators: '' @ orElse c ''No creators'' @ ''</p>''
       @ [newline] @ ''      <p>Related Identifiers: ''
       @ orElse r ''No related identifiers'' @ ''</p>''
       @ [newline] @ ''      <p>Organisations: ''
       @ organisationsShown (attributes item) sc @ ''</p>''
       @ [newline] @ ''      <p>Description: ''
       @ highlighted (description sc) (firstDescription (attributes item)) @ ''</p>''
       @ [newline] @ ''  '')"
    by (simp add: createResultElement_def renderOrganisationsLinks_eq renderDescription_eq
        orElse_organisations)
  then show ?thesis by blast
qed

lemma createResultElement_returns: "\<exists>html. createResultElement item sc = Some html"
  using createResultElement_eq [of item sc] by blast

text \<open>
  Claim C5. The organisations of a record are the name identifiers of its contributors
  that contain \<^verbatim>\<open>ror.org\<close>, in their order. Each is shown as a link to
  \<^verbatim>\<open>https://ror.org/\<close> followed by the trailing path segment of the identifier, around the
  whole identifier, highlighted with the organisation criterion; the links are joined with
  \<^verbatim>\<open>" & "\<close>, and without any such identifier the line shows \<^verbatim>\<open>No organisations\<close>.
  This is the organisations line of the element that \<^verbatim>\<open>createResultElement\<close> returns.
  (By \<open>includesStr_iff\<close>, \<open>includesStr v n\<close> says that \<open>n\<close> is a part of \<open>v\<close>; by
  \<open>source_segments\<close> the highlighted identifier is the identifier once the markers are
  taken away.)
\<close>

theorem organisations_line:
  "map_option (\<lambda>links. orElse links ''No organisations'')
       (renderOrganisationsLinks (attributes item) sc)
     = Some (organisationsShown (attributes item) sc)
   \<and> (\<exists>before after. createResultElement item sc =
         Some (before @ ''<p>Organisations: '' @ organisationsShown (attributes item) sc
                 @ ''</p>'' @ after))"
proof -
  obtain t d c r where "createResultElement item sc =
     Some ([newline] @ ''      <h3>'' @ t @ ''</h3>''
       @ [newline] @ ''      <p>RAiD: '' @ d @ ''</p>''
       @ [newline] @ ''      <p>Creators: '' @ c @ ''</p>''
       @ [newline] @ ''      <p>Related Identifiers: '' @ r @ ''</p>''
       @ [newline] @ ''      <p>Organisations: ''
       @ organisationsShown (attributes item) sc @ ''</p>''
       @ [newline] @ ''      <p>Description: ''
       @ highlighted (description sc) (firstDescription (attributes item)) @ ''</p>''
       @ [newline] @ ''  '')"
    using createResultElement_eq by blast
  then have "createResultElement item sc =
     Some (([newline] @ ''      <h3>'' @ t @ ''</h3>''
       @ [newline] @ ''      <p>RAiD: '' @ d @ ''</p>''
       @ [newline] @ ''      <p>Creators: '' @ c @ ''</p>''
       @ [newline] @ ''      <p>Related Identifiers: '' @ r @ ''</p>''
       @ [newline] @ ''      '')
       @ ''<p>Organisations: '' @ organisationsShown (attributes item) sc @ ''</p>''
       @ ([newline] @ ''      <p>Description: ''
       @ highlighted (description sc) (firstDescription (attributes item)) @ ''</p>''
       @ [newline] @ ''  ''))"
    by simp
  then have "\<exists>before after. createResultElement item sc =
         Some (before @ ''<p>Organisations: '' @ organisationsShown (attributes item) sc
                 @ ''</p>'' @ after)"
    by blast
  then show ?thesis
    by (simp add: renderOrganisationsLinks_eq orElse_organisations)
qed

theorem organisations_line_witness:
  "map_option (\<lambda>links. orElse links ''No organisations'')
       (renderOrganisationsLinks (attributes rorItem) emptyCriteria)
     = Some (''<a href='' @ [dquote] @ ''https://ror.org/0123abcd'' @ [dquote]
             @ '' target='' @ [dquote] @ ''_blank'' @ [dquote]
             @ ''>https://ror.org/0123abcd</a>'')"
proof -
  have "organisationsShown (attributes rorItem) emptyCriteria
      = ''<a href='' @ [dquote] @ ''https://ror.org/0123abcd'' @ [dquote]
             @ '' target='' @ [dquote] @ ''_blank'' @ [dquote]
             @ ''>https://ror.org/0123abcd</a>''"
    by code_simp
  then show ?thesis
    using organisations_line [of rorItem emptyCriteria] by simp
qed

text \<open>
  Claim C10. For a record without a description and a description criterion that is not
  empty, the description line is \<^verbatim>\<open>highlightText("No Description", criterion)\<close>: the
  placeholder itself is highlighted, and the criterion \<^verbatim>\<open>no\<close> marks its first word. The
  line ends the element that \<^verbatim>\<open>createResultElement\<close> returns.
\<close>

theorem description_placeholder_highlighted:
  assumes "descriptions (attributes item) = None \<or> descriptions (attributes item) = Some []"
    and "description sc \<noteq> []"
  shows "renderDescription (attributes item) sc
           = highlightText ''No Description'' (description sc)
    \<and> (\<exists>line before. highlightText ''No Description'' (description sc) = Some line
          \<and> createResultElement item sc =
              Some (before @ ''<p>Description: '' @ line @ ''</p>'' @ [newline] @ ''  ''))
    \<and> (description sc = ''no'' \<longrightarrow>
         renderDescription (attributes item) sc = Some ''<mark>No</mark> Description'')"
proof -
  have first: "firstDescription (attributes item) = ''No Description''"
    using assms(1) by (auto simp: firstDescription_def)
  have no: "highlightText ''No Description'' ''no'' = Some ''<mark>No</mark> Description''"
    by code_simp
  have line: "highlightText ''No Description'' (description sc)
      = Some (highlighted (description sc) ''No Description'')"
    by (rule highlightText_highlighted)
  obtain t d c r where "createResultElement item sc =
     Some ([newline] @ ''      <h3>'' @ t @ ''</h3>''
       @ [newline] @ ''      <p>RAiD: '' @ d @ ''</p>''
       @ [newline] @ ''      <p>Creators: '' @ c @ ''</p>''
       @ [newline] @ ''      <p>Related Identifiers: '' @ r @ ''</p>''
       @ [newline] @ ''      <p>Organisations: ''
       @ organisationsShown (attributes item) sc @ ''</p>''
       @ [newline] @ ''      <p>Description: ''
       @ highlighted (description sc) (firstDescription (attributes item)) @ ''</p>''
       @ [newline] @ ''  '')"
    using createResultElement_eq by blast
  then have "createResultElement item sc =
     Some (([newline] @ ''      <h3>'' @ t @ ''</h3>''
       @ [newline] @ ''      <p>RAiD: '' @ d @ ''</p>''
       @ [newline] @ ''      <p>Creators: '' @ c @ ''</p>''
       @ [newline] @ ''      <p>Related Identifiers: '' @ r @ ''</p>''
       @ [newline] @ ''      <p>Organisations: ''
       @ organisationsShown (attributes item) sc @ ''</p>''
       @ [newline] @ ''      '') @ ''<p>Description: ''
       @ highlighted (description sc) ''No Description'' @ ''</p>''
       @ [newline] @ ''  '')"
    using first by simp
  then have "\<exists>line before. highlightText ''No Description'' (description sc) = Some line
          \<and> createResultElement item sc =
              Some (before @ ''<p>Description: '' @ line @ ''</p>'' @ [newline] @ ''  '')"
    using line by blast
  moreover have "renderDescription (attributes item) sc
           = highlightText ''No Description'' (description sc)"
    using assms(2) first by (simp add: renderDescription_def)
  ultimately show ?thesis using no by simp
qed


theorem description_placeholder_highlighted_witness:
  "descriptions (attributes (exampleItem ''10.1/a'')) = None
   \<and> description noCriteria \<noteq> []
   \<and> renderDescription (attributes (exampleItem ''10.1/a'')) noCriteria
       = Some ''<mark>No</mark> Description''"
proof -
  have n: "descriptions (attributes (exampleItem ''10.1/a'')) = None"
    by (simp add: exampleItem_def)
  then have a: "descriptions (attributes (exampleItem ''10.1/a'')) = None
      \<or> descriptions (attributes (exampleItem ''10.1/a'')) = Some []"
    by simp
  have b: "description noCriteria \<noteq> []" by (simp add: noCriteria_def)
  have c: "description noCriteria = ''no''" by (simp add: noCriteria_def)
  have "renderDescription (attributes (exampleItem ''10.1/a'')) noCriteria
      = Some ''<mark>No</mark> Description''"
    using description_placeholder_highlighted [OF a b] c by blast
  then show ?thesis using n b by blast
qed

section \<open>Facts about the query compiler\<close>

lemma queryParts_Nil_iff:
  "queryParts sc = [] \<longleftrightarrow>
     title sc = [] \<and> description sc = [] \<and> creator sc = [] \<and> related sc = []
     \<and> organisation sc = []"
  by (simp add: queryParts_def)

lemma hasAtLeastOneQuery_iff:
  "hasAtLeastOneQuery sc \<longleftrightarrow>
     \<not> (blank (title sc) \<and> blank (description sc) \<and> blank (creator sc)
        \<and> blank (related sc) \<and> blank (organisation sc))"
  by (auto simp: hasAtLeastOneQuery_def trim_Nil_iff)

lemma hasAtLeastOneQuery_queryParts: "hasAtLeastOneQuery sc \<Longrightarrow> queryParts sc \<noteq> []"
  by (auto simp: hasAtLeastOneQuery_def queryParts_Nil_iff dest: trim_not_Nil)

lemma searchSingleApi_request:
  "queryParts sc \<noteq> [] \<Longrightarrow>
     searchSingleApi fetch api sc operator =
       ([requestUrl api sc operator], fetch (requestUrl api sc operator))"
  by (simp add: searchSingleApi_def requestUrl_def Let_def)

subsection \<open>Percent-encoding on all strings\<close>

lemma of_char_small: "(of_char c :: nat) < 55296"
proof -
  have a: "(of_char c :: nat) < 256" by simp
  have b: "(256 :: nat) < 55296" by simp
  show ?thesis using a b by (rule less_trans)
qed

lemma unat_unit: "unat (of_nat (of_char c) :: 16 word) = of_char c"
proof -
  have a: "(of_char c :: nat) < 55296" by (rule of_char_small)
  have b: "(55296 :: nat) < 2 ^ 16" by simp
  have "(of_char c :: nat) < 2 ^ 16" using a b by (rule less_trans)
  then show ?thesis by (simp add: unat_of_nat take_bit_nat_eq_self)
qed

lemma unreserved_ascii: "uriUnreserved c \<Longrightarrow> (of_char c :: nat) < 128"
  by (auto simp: uriUnreserved_def Let_def squote_def)

lemma uriUnreserved16_unit: "uriUnreserved16 (of_nat (of_char c)) = uriUnreserved c"
  using unreserved_ascii [of c] by (auto simp: uriUnreserved16_def unat_unit)

lemma not_surrogate_unit: "\<not> isSurrogate (of_nat (of_char c))"
  using of_char_small [of c] by (simp add: isSurrogate_def unat_unit)

lemma encodeUnit_percentBytes:
  "encodeUnit c = (if uriUnreserved c then [c] else percentBytes (of_char c))"
  by (simp add: encodeUnit_def percentBytes_def)

lemma encodeURIComponent16_widen: "encodeURIComponent16 (widen s) = Inr (encodeURIComponent s)"
proof (induction s rule: induct_list012)
  case 1
  show ?case by (simp add: widen_def encodeURIComponent_def)
next
  case (2 c)
  show ?case
    by (simp add: widen_def encodeURIComponent_def encodeUnit_percentBytes
        uriUnreserved16_unit not_surrogate_unit unat_unit)
next
  case (3 c d s)
  have "encodeURIComponent16 (widen (d # s)) = Inr (encodeURIComponent (d # s))"
    by (rule 3)
  then show ?case
    by (simp add: widen_def encodeURIComponent_def encodeUnit_percentBytes
        uriUnreserved16_unit not_surrogate_unit unat_unit)
qed

lemma widen_Nil_iff: "widen s = [] \<longleftrightarrow> s = []"
  by (simp add: widen_def)

lemma queryParts16_widen: "queryParts16 (widenCriteria sc) = Inr (queryParts sc)"
  by (simp add: queryParts16_def pushClause_def widenCriteria_def queryParts_def
      encodeURIComponent16_widen widen_Nil_iff Let_def)

lemma searchSingleApi16_widen:
  "searchSingleApi16 fetch apiUrl (widenCriteria sc) operator =
     searchSingleApi fetch apiUrl sc operator"
  by (simp add: searchSingleApi16_def searchSingleApi_def queryParts16_widen queryString_def
      Let_def)

lemma percent_not_unreserved: "\<not> uriUnreserved CHR ''%''"
  by (simp add: uriUnreserved_def squote_def)

lemma percentEncoded_unreserved:
  "uriUnreserved c \<Longrightarrow> percentEncoded (c # r) = percentEncoded r"
proof (induction r rule: percentEncoded.induct)
  case 1
  then show ?case by simp
next
  case (2 d)
  then show ?case by simp
next
  case (3 d e)
  then show ?case using percent_not_unreserved by auto
next
  case (4 d h1 h2 r)
  then show ?case using percent_not_unreserved by auto
qed

lemma isHexDigit_hexDigit: "isHexDigit (hexDigit n)"
proof -
  have "\<forall>k\<in>set [0..<16]. isHexDigit (''0123456789ABCDEF'' ! k)"
    by code_simp
  moreover have "n mod 16 \<in> set [0..<16]" by simp
  ultimately show ?thesis unfolding hexDigit_def by blast
qed

lemma percentEncoded_percentByte: "percentEncoded (percentByte b @ r) = percentEncoded r"
  by (simp add: percentByte_def isHexDigit_hexDigit)

lemma percentEncoded_percentBytes:
  "percentEncoded (concat (map percentByte bs) @ r) = percentEncoded r"
  by (induction bs) (simp_all add: percentEncoded_percentByte del: percentEncoded.simps)

lemma percentEncoded_encodePoint: "percentEncoded (encodePoint n @ r) = percentEncoded r"
  by (simp add: encodePoint_def percentEncoded_unreserved percentEncoded_percentBytes
      del: percentEncoded.simps)

lemma percentEncoded_percentEncoding: "percentEncoded (percentEncoding v)"
proof -
  have "percentEncoded (concat (map encodePoint ps) @ r) = percentEncoded r" for ps r
    by (induction ps) (simp_all add: percentEncoded_encodePoint del: percentEncoded.simps)
  from this [of _ "[]"] show ?thesis
    by (simp add: percentEncoding_def split: option.splits)
qed

lemma unreserved16_not_surrogate: "uriUnreserved16 u \<Longrightarrow> \<not> isSurrogate u"
  by (simp add: uriUnreserved16_def isSurrogate_def)

lemma encodePoint_unit:
  "encodePoint (unat u) =
     (if uriUnreserved16 u then [char_of (unat u)] else percentBytes (unat u))"
  by (simp add: encodePoint_def uriUnreserved16_def percentBytes_def)

lemma encodePoint_pair: "encodePoint (pairPoint u v) = percentBytes (pairPoint u v)"
  by (simp add: encodePoint_def pairPoint_def percentBytes_def)

lemma encodeURIComponent16_points:
  "encodeURIComponent16 v =
     (case codePoints v of
        None \<Rightarrow> Inl URIError
      | Some points \<Rightarrow> Inr (concat (map encodePoint points)))"
proof (induction v rule: encodeURIComponent16.induct)
  case 1
  show ?case by simp
next
  case (2 u)
  show ?case
    using unreserved16_not_surrogate [of u] by (auto simp: encodePoint_unit)
next
  case (3 u v r)
  show ?case
  proof (cases "uriUnreserved16 u")
    case True
    then show ?thesis
      using unreserved16_not_surrogate [of u] 3(1)
      by (simp add: encodePoint_unit split: option.splits)
  next
    case False
    show ?thesis
    proof (cases "isSurrogate u")
      case no: False
      then show ?thesis using False 3(2)
        by (simp add: encodePoint_unit split: option.splits)
    next
      case True
      then show ?thesis using False 3(3)
        by (simp add: encodePoint_pair split: option.splits)
    qed
  qed
qed

lemma encodeURIComponent16_eq:
  "encodeURIComponent16 v = (if wellFormed v then Inr (percentEncoding v) else Inl URIError)"
  by (simp add: encodeURIComponent16_points wellFormed_def percentEncoding_def
      split: option.splits)

lemma wellFormed_Nil: "wellFormed []"
  by (simp add: wellFormed_def)

lemma pushClause_Inl: "pushClause opening v closing (Inl e) = Inl e"
  by (simp add: pushClause_def)

lemma pushClause_Inr:
  "pushClause opening v closing (Inr parts) =
     (if \<not> wellFormed v then Inl URIError
      else if v \<noteq> [] then Inr (parts @ [opening @ percentEncoding v @ closing])
      else Inr parts)"
  by (simp add: pushClause_def encodeURIComponent16_eq wellFormed_Nil)

lemma pushes_Inl:
  "foldl (\<lambda>pushed (opening, v, closing). pushClause opening v closing pushed) (Inl e) ts
     = Inl e"
  by (induction ts) (auto simp: pushClause_Inl)

lemma pushes_Inr:
  "foldl (\<lambda>pushed (opening, v, closing). pushClause opening v closing pushed) (Inr parts) ts
     = (if list_all (\<lambda>(opening, v, closing). wellFormed v) ts
        then Inr (parts @ map (\<lambda>(opening, v, closing). opening @ percentEncoding v @ closing)
                     (filter (\<lambda>(opening, v, closing). v \<noteq> []) ts))
        else Inl URIError)"
proof (induction ts arbitrary: parts)
  case Nil
  show ?case by simp
next
  case (Cons t ts)
  obtain a v b where t: "t = (a, v, b)" by (cases t) auto
  show ?case
    by (simp add: t pushClause_Inr pushes_Inl Cons.IH)
qed

lemma queryParts16_pushes:
  "queryParts16 sc =
     foldl (\<lambda>pushed (opening, v, closing). pushClause opening v closing pushed) (Inr [])
       (fieldClauses sc)"
  by (simp add: queryParts16_def fieldClauses_def Let_def)

lemma queryParts16_eq:
  "queryParts16 sc =
     (if list_all wellFormed (fieldValues sc) then Inr (clausesWhere16 (\<lambda>v. v \<noteq> []) sc)
      else Inl URIError)"
proof -
  have "list_all (\<lambda>(opening, v, closing). wellFormed v) (fieldClauses sc)
      = list_all wellFormed (fieldValues sc)"
    by (simp add: fieldClauses_def fieldValues_def)
  then show ?thesis
    by (simp add: queryParts16_pushes pushes_Inr clausesWhere16_def)
qed

lemma clausesWhere16_Nil_iff:
  "clausesWhere16 (\<lambda>v. v \<noteq> []) sc = [] \<longleftrightarrow> \<not> list_ex (\<lambda>v. v \<noteq> []) (fieldValues sc)"
  by (simp add: clausesWhere16_def fieldClauses_def fieldValues_def)

lemma codePoints_widen: "codePoints (widen s) = Some (map of_char s)"
proof (induction s rule: induct_list012)
  case 1
  show ?case by (simp add: widen_def)
next
  case (2 c)
  show ?case by (simp add: widen_def not_surrogate_unit unat_unit)
next
  case (3 c d s)
  have "codePoints (widen (d # s)) = Some (map of_char (d # s))" by (rule 3)
  then show ?case by (simp add: widen_def not_surrogate_unit unat_unit)
qed

lemma wellFormed_widenCriteria: "list_all wellFormed (fieldValues (widenCriteria sc))"
  by (simp add: fieldValues_def widenCriteria_def wellFormed_def codePoints_widen)

lemma percentEncoding_widen: "percentEncoding (widen s) = encodeURIComponent s"
  using encodeURIComponent16_widen [of s] encodeURIComponent16_eq [of "widen s"]
  by (simp split: if_splits)

text \<open>
  Claim C1, as the specification states it, fails for a field of white space: with the
  title \<^verbatim>\<open>data\<close> and the description \<^verbatim>\<open>" "\<close> the description is blank, and the query
  has a clause for it.
\<close>

theorem searchSingleApi_blank_field_counterexample:
  "\<not> blank (title exampleBlankCriteria)
   \<and> blank (description exampleBlankCriteria)
   \<and> fst (searchSingleApi unreachable ''https://api.datacite.org/dois''
             exampleBlankCriteria ''AND'')
       = [''https://api.datacite.org/dois?query=(identifiers.identifier:*raid.org.au* AND (titles.title:*data* AND descriptions.description:*%20*))&page[size]=10000'']
   \<and> queryString exampleBlankCriteria ''AND''
       \<noteq> compiledQuery (\<lambda>v. \<not> blank v) exampleBlankCriteria ''AND''"
  by code_simp

text \<open>
  Claim C1, amended. For criteria of any code units: when no field has a lone surrogate
  and at least one field is not empty, \<^verbatim>\<open>searchSingleApi\<close> requests the endpoint once,
  with the query that has one clause of the table for each field that is not empty and
  none for an empty field, every value percent-encoded (the UTF-8 bytes of its code
  points), the clauses joined by the operator between two spaces, inside
  \<^verbatim>\<open>(identifiers.identifier:*raid.org.au* AND (\<close> and \<^verbatim>\<open>))\<close>. A field of white space
  is not empty. When a field has a lone surrogate, \<^verbatim>\<open>encodeURIComponent\<close> throws: the
  function is rejected with \<^verbatim>\<open>URIError\<close> and requests nothing. Criteria of the code
  units 0..255 have no surrogate, and on them this is \<open>searchSingleApi\<close> of the sections
  above.
\<close>

theorem searchSingleApi_query:
  "(list_all wellFormed (fieldValues sc) \<and> list_ex (\<lambda>v. v \<noteq> []) (fieldValues sc) \<longrightarrow>
      searchSingleApi16 fetch apiUrl sc operator =
        ([apiUrl @ ''?query='' @ compiledQuery16 (\<lambda>v. v \<noteq> []) sc operator
            @ ''&page[size]=10000''],
         fetch (apiUrl @ ''?query='' @ compiledQuery16 (\<lambda>v. v \<noteq> []) sc operator
            @ ''&page[size]=10000''))
      \<and> length (clausesWhere16 (\<lambda>v. v \<noteq> []) sc) =
          length (filter (\<lambda>v. v \<noteq> []) (fieldValues sc)))
   \<and> (\<not> list_all wellFormed (fieldValues sc) \<longrightarrow>
        searchSingleApi16 fetch apiUrl sc operator = ([], Inl URIError))
   \<and> list_all (\<lambda>v. percentEncoded (percentEncoding v)) (fieldValues sc)
   \<and> list_all wellFormed (fieldValues (widenCriteria narrow))
   \<and> searchSingleApi fetch apiUrl narrow operator =
        searchSingleApi16 fetch apiUrl (widenCriteria narrow) operator"
proof -
  have "searchSingleApi16 fetch apiUrl sc operator =
        ([apiUrl @ ''?query='' @ compiledQuery16 (\<lambda>v. v \<noteq> []) sc operator
            @ ''&page[size]=10000''],
         fetch (apiUrl @ ''?query='' @ compiledQuery16 (\<lambda>v. v \<noteq> []) sc operator
            @ ''&page[size]=10000''))"
    if "list_all wellFormed (fieldValues sc)" and "list_ex (\<lambda>v. v \<noteq> []) (fieldValues sc)"
    using that clausesWhere16_Nil_iff [of sc]
    by (simp add: searchSingleApi16_def queryParts16_eq compiledQuery16_def Let_def)
  moreover have "length (clausesWhere16 (\<lambda>v. v \<noteq> []) sc) =
          length (filter (\<lambda>v. v \<noteq> []) (fieldValues sc))"
    by (simp add: clausesWhere16_def fieldClauses_def fieldValues_def)
  moreover have "searchSingleApi16 fetch apiUrl sc operator = ([], Inl URIError)"
    if "\<not> list_all wellFormed (fieldValues sc)"
    using that by (simp add: searchSingleApi16_def queryParts16_eq)
  moreover have "list_all (\<lambda>v. percentEncoded (percentEncoding v)) (fieldValues sc)"
    by (simp add: fieldValues_def percentEncoded_percentEncoding)
  ultimately show ?thesis
    using wellFormed_widenCriteria searchSingleApi16_widen by simp
qed

theorem searchSingleApi_query_witness:
  "list_all wellFormed (fieldValues pairCriteria)
   \<and> title pairCriteria \<noteq> []
   \<and> searchSingleApi16 unreachable ''https://api.datacite.org/dois'' pairCriteria ''OR''
       = ([''https://api.datacite.org/dois?query=(identifiers.identifier:*raid.org.au* AND (titles.title:*open%20data* OR creators.name:''
             @ [dquote] @ ''%F0%9F%98%80'' @ [dquote] @ ''))&page[size]=10000''],
          Inl FetchError)
   \<and> \<not> wellFormed (creator loneCriteria)
   \<and> searchSingleApi16 unreachable ''https://api.datacite.org/dois'' loneCriteria ''OR''
       = ([], Inl URIError)"
proof -
  have pair: "codePoints [0xD83D, 0xDE00] = Some [128512]"
    by (simp add: isSurrogate_def isTrailing_def pairPoint_def)
  have lone: "codePoints [0xD83D] = None"
    by (simp add: isSurrogate_def)
  have smile: "encodePoint 128512 = ''%F0%9F%98%80''"
    by (simp add: encodePoint_def utf8Bytes_def percentByte_def hexDigit_def)
  have words: "encodeURIComponent ''open data'' = ''open%20data''"
    by code_simp
  have wf: "list_all wellFormed (fieldValues pairCriteria)"
    by (simp add: fieldValues_def pairCriteria_def wellFormed_def codePoints_widen
        isSurrogate_def isTrailing_def)
  have ne: "list_ex (\<lambda>v. v \<noteq> []) (fieldValues pairCriteria)"
    by (simp add: fieldValues_def pairCriteria_def widen_def)
  have t: "title pairCriteria \<noteq> []"
    by (simp add: pairCriteria_def widen_def)
  have bad: "\<not> wellFormed (creator loneCriteria)"
    by (simp add: loneCriteria_def wellFormed_def isSurrogate_def)
  then have ill: "\<not> list_all wellFormed (fieldValues loneCriteria)"
    by (simp add: fieldValues_def)
  have pw: "percentEncoding (widen ''open data'') = ''open%20data''"
    by (simp add: percentEncoding_widen words)
  have pp: "percentEncoding [0xD83D, 0xDE00] = ''%F0%9F%98%80''"
    by (simp add: percentEncoding_def pair smile del: codePoints.simps)
  have q: "compiledQuery16 (\<lambda>v. v \<noteq> []) pairCriteria ''OR''
      = ''(identifiers.identifier:*raid.org.au* AND (titles.title:*open%20data* OR creators.name:''
          @ [dquote] @ ''%F0%9F%98%80'' @ [dquote] @ ''))''"
    by (simp add: compiledQuery16_def clausesWhere16_def fieldClauses_def pairCriteria_def
        pw pp widen_Nil_iff)
  have one: "searchSingleApi16 unreachable ''https://api.datacite.org/dois'' pairCriteria ''OR''
       = ([''https://api.datacite.org/dois?query=(identifiers.identifier:*raid.org.au* AND (titles.title:*open%20data* OR creators.name:''
             @ [dquote] @ ''%F0%9F%98%80'' @ [dquote] @ ''))&page[size]=10000''],
          Inl FetchError)"
    using wf ne
      searchSingleApi_query [of pairCriteria unreachable "''https://api.datacite.org/dois''"
        "''OR''"]
    by (simp add: q unreachable_def)
  have two: "searchSingleApi16 unreachable ''https://api.datacite.org/dois'' loneCriteria ''OR''
       = ([], Inl URIError)"
    using ill
      searchSingleApi_query [of loneCriteria unreachable "''https://api.datacite.org/dois''"
        "''OR''"]
    by blast
  show ?thesis using wf t one bad two by blast
qed

text \<open>
  Claim C6. The criteria that give no clause are those with five empty fields; for them
  \<^verbatim>\<open>searchSingleApi\<close> returns the response without data, which is how it tells that the
  query is empty, and requests nothing.
\<close>

theorem searchSingleApi_empty_query:
  "(queryParts sc = [] \<longleftrightarrow>
      title sc = [] \<and> description sc = [] \<and> creator sc = [] \<and> related sc = []
      \<and> organisation sc = [])
   \<and> (queryParts sc = [] \<longrightarrow>
        searchSingleApi fetch apiUrl sc operator = ([], Inr (WithData \<lparr>data = []\<rparr>)))"
  by (simp add: queryParts_Nil_iff searchSingleApi_def)

theorem searchSingleApi_empty_query_witness:
  "queryParts emptyCriteria = []
   \<and> searchSingleApi backendA ''https://api.datacite.org/dois'' emptyCriteria ''AND''
       = ([], Inr (WithData \<lparr>data = []\<rparr>))"
proof -
  have h: "queryParts emptyCriteria = []" by (simp add: queryParts_def emptyCriteria_def)
  show ?thesis
    using h searchSingleApi_empty_query
      [of emptyCriteria backendA "''https://api.datacite.org/dois''" "''AND''"]
    by blast
qed

section \<open>Facts about the fan-out search\<close>

lemma reduceResults_outcome:
  "reduceResults acc results = Inl TypeError \<or> (\<exists>items. reduceResults acc results = Inr items)"
  by (induction acc results rule: reduceResults.induct) simp_all

lemma reduceResults_with_data:
  "Inr WithoutData \<notin> set results \<Longrightarrow>
     reduceResults acc results = Inr (acc @ mergedData results)"
proof (induction acc results rule: reduceResults.induct)
  case (1 acc)
  show ?case by (simp add: mergedData_def successes_def)
next
  case (2 acc e results)
  then show ?case by (simp add: mergedData_def successes_def)
next
  case (3 acc v results)
  then show ?case by (simp add: mergedData_def successes_def)
next
  case (4 acc results)
  then show ?case by simp
qed

lemma reduceResults_without_data:
  "Inr WithoutData \<in> set results \<Longrightarrow> reduceResults acc results = Inl TypeError"
  by (induction acc results rule: reduceResults.induct) auto

lemma searchEndpoints_results:
  assumes "hasAtLeastOneQuery sc"
  shows "searchEndpoints endpoints fetch sc operator =
     (map (\<lambda>api. requestUrl api sc operator) endpoints,
      case combinedData (map (\<lambda>api. fetch (requestUrl api sc operator)) endpoints) of
        Inl e \<Rightarrow> Inl e
      | Inr items \<Rightarrow> Inr \<lparr>data = items\<rparr>)"
proof -
  have "queryParts sc \<noteq> []" using assms by (rule hasAtLeastOneQuery_queryParts)
  then have single: "searchSingleApi fetch api sc operator =
       ([requestUrl api sc operator], fetch (requestUrl api sc operator))" for api
    by (rule searchSingleApi_request)
  show ?thesis
    using assms by (simp add: searchEndpoints_def single comp_def)
qed

text \<open>
  When every answer that arrives has a \<^verbatim>\<open>data\<close> array, the search merges the data of
  the answers in the order of the list of endpoints, whichever requests are rejected;
  for the one endpoint of the program that is also the order of completion.
\<close>

lemma searchEndpoints_with_data:
  assumes "hasAtLeastOneQuery sc"
    and "\<forall>api\<in>set endpoints. fetch (requestUrl api sc operator) \<noteq> Inr WithoutData"
  shows "searchEndpoints endpoints fetch sc operator =
     (map (\<lambda>api. requestUrl api sc operator) endpoints,
      Inr \<lparr>data = mergedData (map (\<lambda>api. fetch (requestUrl api sc operator)) endpoints)\<rparr>)"
proof -
  have "Inr WithoutData \<notin> set (map (\<lambda>api. fetch (requestUrl api sc operator)) endpoints)"
    using assms(2) by auto
  then have "combinedData (map (\<lambda>api. fetch (requestUrl api sc operator)) endpoints)
      = Inr (mergedData (map (\<lambda>api. fetch (requestUrl api sc operator)) endpoints))"
    by (simp add: combinedData_def reduceResults_with_data)
  then show ?thesis using searchEndpoints_results [OF assms(1)] by simp
qed

lemma searchDois_completion_order:
  assumes "hasAtLeastOneQuery sc"
    and "fetch (requestUrl ''https://api.datacite.org/dois'' sc operator) \<noteq> Inr WithoutData"
  shows "snd (searchDois fetch sc operator) =
     Inr \<lparr>data = completionOrderData completes apis fetch sc operator\<rparr>"
  using assms searchEndpoints_with_data [of sc apis fetch operator]
  by (simp add: searchDois_def apis_def completionOrderData_def)

text \<open>
  Claim C3. When the five fields are blank, \<^verbatim>\<open>searchDois\<close> throws the error of the
  validation and requests nothing; when one of them is not blank, it does not throw that
  error: it returns a response, or is rejected with the \<^verbatim>\<open>TypeError\<close> of an answer
  without a \<^verbatim>\<open>data\<close> array.
\<close>

theorem searchDois_validation:
  "(blank (title sc) \<and> blank (description sc) \<and> blank (creator sc) \<and> blank (related sc)
      \<and> blank (organisation sc) \<longrightarrow>
      searchDois fetch sc operator =
        ([], Inl (Error ''At least one search criterion is required'')))
   \<and> (\<not> (blank (title sc) \<and> blank (description sc) \<and> blank (creator sc)
          \<and> blank (related sc) \<and> blank (organisation sc)) \<longrightarrow>
      (\<forall>message. snd (searchDois fetch sc operator) \<noteq> Inl (Error message))
      \<and> ((\<exists>response. snd (searchDois fetch sc operator) = Inr response)
          \<or> snd (searchDois fetch sc operator) = Inl TypeError))"
proof -
  let ?outcomes = "map snd (map (\<lambda>api. searchSingleApi fetch api sc operator) apis)"
  have "combinedData ?outcomes = Inl TypeError
      \<or> (\<exists>items. combinedData ?outcomes = Inr items)"
    unfolding combinedData_def by (rule reduceResults_outcome)
  then show ?thesis
    by (auto simp: searchDois_def searchEndpoints_def hasAtLeastOneQuery_iff Let_def)
qed

theorem searchDois_validation_witness:
  "blank (title spacesCriteria) \<and> blank (description spacesCriteria)
   \<and> blank (creator spacesCriteria) \<and> blank (related spacesCriteria)
   \<and> blank (organisation spacesCriteria)
   \<and> searchDois backendA spacesCriteria ''AND''
       = ([], Inl (Error ''At least one search criterion is required''))
   \<and> \<not> blank (title exampleCriteria)
   \<and> snd (searchDois backendA exampleCriteria ''AND'')
       \<noteq> Inl (Error ''At least one search criterion is required'')"
proof -
  have b: "blank (title spacesCriteria) \<and> blank (description spacesCriteria)
      \<and> blank (creator spacesCriteria) \<and> blank (related spacesCriteria)
      \<and> blank (organisation spacesCriteria)"
    by code_simp
  have n: "\<not> blank (title exampleCriteria)" by code_simp
  show ?thesis
    using b n searchDois_validation [of spacesCriteria backendA "''AND''"]
      searchDois_validation [of exampleCriteria backendA "''AND''"]
    by blast
qed

text \<open>
  Claim C2. The program breaks it. An endpoint whose answer has no \<^verbatim>\<open>data\<close> array (the
  body of an error answer) is a failed endpoint, to be left out of the result; but the
  promise of \<^verbatim>\<open>searchSingleApi\<close> is fulfilled with that answer, the \<^verbatim>\<open>reduce\<close> spreads
  its missing \<^verbatim>\<open>data\<close>, and \<^verbatim>\<open>searchDois\<close> is rejected with \<^verbatim>\<open>TypeError\<close> after the request
  was made: the failure is propagated. (For rejected requests and answers with data the
  claim holds: \<open>searchEndpoints_with_data\<close>, \<open>searchDois_completion_order\<close>.)
\<close>

theorem searchDois_answer_without_data:
  assumes "hasAtLeastOneQuery sc"
    and "fetch (requestUrl ''https://api.datacite.org/dois'' sc operator) = Inr WithoutData"
  shows "searchDois fetch sc operator =
     ([requestUrl ''https://api.datacite.org/dois'' sc operator], Inl TypeError)"
proof -
  have "combinedData [fetch (requestUrl ''https://api.datacite.org/dois'' sc operator)]
      = Inl TypeError"
    using assms(2) by (simp add: combinedData_def)
  then show ?thesis
    using searchEndpoints_results [OF assms(1), of apis fetch operator]
    by (simp add: searchDois_def apis_def)
qed

theorem searchDois_answer_without_data_witness:
  "hasAtLeastOneQuery exampleCriteria
   \<and> noDataBackend (requestUrl ''https://api.datacite.org/dois'' exampleCriteria ''AND'')
       = Inr WithoutData
   \<and> searchDois noDataBackend exampleCriteria ''AND''
       = ([''https://api.datacite.org/dois?query=(identifiers.identifier:*raid.org.au* AND (titles.title:*data*))&page[size]=10000''],
          Inl TypeError)"
proof -
  have h: "hasAtLeastOneQuery exampleCriteria" by code_simp
  have f: "noDataBackend (requestUrl ''https://api.datacite.org/dois'' exampleCriteria ''AND'')
      = Inr WithoutData"
    by (simp add: noDataBackend_def)
  have u: "requestUrl ''https://api.datacite.org/dois'' exampleCriteria ''AND''
      = ''https://api.datacite.org/dois?query=(identifiers.identifier:*raid.org.au* AND (titles.title:*data*))&page[size]=10000''"
    by code_simp
  have "searchDois noDataBackend exampleCriteria ''AND''
      = ([requestUrl ''https://api.datacite.org/dois'' exampleCriteria ''AND''], Inl TypeError)"
    using h f searchDois_answer_without_data [of exampleCriteria noDataBackend "''AND''"]
    by blast
  then show ?thesis using h f by (simp add: u)
qed

section \<open>Facts about the batch download\<close>

lemma fallbackParts_Inr:
  "fallbackParts url = Inr (prefix, suffix) \<Longrightarrow>
     fallbackName url = Some (''raid-'' @ prefix @ ''-'' @ suffix @ ''.json'')"
proof -
  assume a: "fallbackParts url = Inr (prefix, suffix)"
  then obtain second rest where l3: "sliceLast3 (split CHR ''/'' url) = prefix # second # rest"
    and sp: "split CHR ''.'' second \<noteq> [] \<longrightarrow> suffix = hd (split CHR ''.'' second)"
    by (auto simp: fallbackParts_def Let_def split: list.splits)
  have "suffix = takeWhile (\<lambda>c. c \<noteq> CHR ''.'') second"
    using sp split_not_Nil [of "CHR ''.''" second] by (simp add: hd_split)
  then show ?thesis using l3 by (simp add: fallbackName_def)
qed

lemma fallbackParts_slash:
  "CHR ''/'' \<in> set url \<Longrightarrow> \<exists>prefix suffix. fallbackParts url = Inr (prefix, suffix)"
proof -
  assume "CHR ''/'' \<in> set url"
  then obtain a b r where "sliceLast3 (split CHR ''/'' url) = a # b # r"
    using sliceLast3_two [OF split_two] by blast
  then show ?thesis
    by (auto simp: fallbackParts_def Let_def split: list.splits)
qed

lemma downloadName_chosen:
  "fallbackParts url = Inr (prefix, suffix) \<Longrightarrow>
     chosenName url = Some (downloadName url prefix suffix)"
  by (simp add: chosenName_def downloadName_def pop_split fallbackParts_Inr)


lemma fallbackParts_no_slash: "CHR ''/'' \<notin> set url \<Longrightarrow> fallbackParts url = Inl TypeError"
  by (simp add: fallbackParts_def split_no_sep sliceLast3_def)

text \<open>
  Claim C8. When a round of the download loop chooses a file name, the name is the final
  path segment of the URL if that is not empty, and otherwise \<^verbatim>\<open>raid-\<close>, the first of
  the last three path segments, \<^verbatim>\<open>-\<close>, the second of them up to its first dot, and
  \<^verbatim>\<open>.json\<close>. A round chooses a name exactly when the URL has a slash and its download
  succeeds; every URL that \<^verbatim>\<open>renderResults\<close> collects has one, and ends with one, so that
  its name is the fallback.
\<close>

theorem download_file_name:
  "(downloadOne fetchOk url = Saved name \<longrightarrow> chosenName url = Some name)
   \<and> ((\<exists>chosen. downloadOne fetchOk url = Saved chosen) \<longleftrightarrow>
        CHR ''/'' \<in> set url \<and> fetchOk url)
   \<and> downloadOne alwaysOk (artifactUrl ''10.1234/abc'') = Saved ''raid-10.1234-abc.json''"
proof -
  have "chosenName url = Some name" if "downloadOne fetchOk url = Saved name"
    using that downloadName_chosen
    by (auto simp: downloadOne_def split: if_splits sum.splits)
  moreover have "\<exists>chosen. downloadOne fetchOk url = Saved chosen"
    if h: "CHR ''/'' \<in> set url \<and> fetchOk url"
  proof -
    obtain prefix suffix where "fallbackParts url = Inr (prefix, suffix)"
      using h fallbackParts_slash by blast
    moreover have "url \<noteq> []" using h by auto
    ultimately show ?thesis using h by (simp add: downloadOne_def)
  qed
  moreover have "CHR ''/'' \<in> set url \<and> fetchOk url"
    if h: "\<exists>chosen. downloadOne fetchOk url = Saved chosen"
  proof (cases "CHR ''/'' \<in> set url")
    case True
    then show ?thesis using h
      by (auto simp: downloadOne_def split: if_splits sum.splits)
  next
    case False
    then have "fallbackParts url = Inl TypeError" by (rule fallbackParts_no_slash)
    then show ?thesis using h by (auto simp: downloadOne_def split: if_splits)
  qed
  moreover have "downloadOne alwaysOk (artifactUrl ''10.1234/abc'')
       = Saved ''raid-10.1234-abc.json''"
    by code_simp
  ultimately show ?thesis by blast
qed

theorem download_file_name_witness:
  "downloadOne alwaysOk ''https://example.org/files/report.json'' = Saved ''report.json''
   \<and> chosenName ''https://example.org/files/report.json'' = Some ''report.json''
   \<and> downloadOne alwaysOk ''report.json'' = Failed TypeError"
proof -
  have a: "downloadOne alwaysOk ''https://example.org/files/report.json''
      = Saved ''report.json''"
    by code_simp
  have b: "downloadOne alwaysOk ''report.json'' = Failed TypeError"
    by code_simp
  show ?thesis
    using a b download_file_name
      [of alwaysOk "''https://example.org/files/report.json''" "''report.json''"]
    by blast
qed

section \<open>Facts about the set of artifact URLs\<close>

lemma grows_refl: "grows fs fs"
  by (simp add: grows_def)

lemma grows_trans: "grows a b \<Longrightarrow> grows b c \<Longrightarrow> grows a c"
proof -
  assume ab: "grows a b" and bc: "grows b c"
  obtain x where x: "b = a @ x" "\<forall>u\<in>set x. \<exists>d. u = artifactUrl d" "distinct a \<longrightarrow> distinct b"
    using ab by (auto simp: grows_def)
  obtain y where y: "c = b @ y" "\<forall>u\<in>set y. \<exists>d. u = artifactUrl d" "distinct b \<longrightarrow> distinct c"
    using bc by (auto simp: grows_def)
  have "c = a @ (x @ y)" using x(1) y(1) by simp
  moreover have "\<forall>u\<in>set (x @ y). \<exists>d. u = artifactUrl d" using x(2) y(2) by auto
  moreover have "distinct a \<longrightarrow> distinct c" using x(3) y(3) by blast
  ultimately show ?thesis unfolding grows_def by blast
qed

lemma grows_setAdd: "grows fs (setAdd (artifactUrl d) fs)"
proof (cases "artifactUrl d \<in> set fs")
  case True
  then show ?thesis by (simp add: setAdd_def grows_refl)
next
  case False
  then have "setAdd (artifactUrl d) fs = fs @ [artifactUrl d]" by (simp add: setAdd_def)
  moreover have "\<forall>u\<in>set [artifactUrl d]. \<exists>e. u = artifactUrl e" by auto
  moreover have "distinct fs \<longrightarrow> distinct (fs @ [artifactUrl d])" using False by simp
  ultimately show ?thesis unfolding grows_def by metis
qed

lemma set_setAdd: "set (setAdd v fs) = insert v (set fs)"
  by (auto simp: setAdd_def)

lemma renderItems_grows:
  "\<exists>s'. renderItems sc items s = Some s'
     \<and> grows (filesToDownload s) (filesToDownload s')
     \<and> set (filesToDownload s') =
         set (filesToDownload s) \<union> (\<lambda>item. artifactUrl (doi (attributes item))) ` set items"
proof (induction items arbitrary: s)
  case Nil
  show ?case by (simp add: grows_refl)
next
  case (Cons item items)
  obtain html where html: "createResultElement item sc = Some html"
    using createResultElement_returns by blast
  let ?s1 = "s\<lparr>container := map_option (\<lambda>children. children @ [ResultDiv html]) (container s),
          filesToDownload :=
            setAdd (artifactUrl (doi (attributes item))) (filesToDownload s)\<rparr>"
  obtain s' where s': "renderItems sc items ?s1 = Some s'"
    "grows (filesToDownload ?s1) (filesToDownload s')"
    "set (filesToDownload s') =
         set (filesToDownload ?s1) \<union> (\<lambda>item. artifactUrl (doi (attributes item))) ` set items"
    using Cons.IH [of ?s1] by blast
  have "grows (filesToDownload s) (filesToDownload ?s1)"
    by (simp add: grows_setAdd)
  then have "grows (filesToDownload s) (filesToDownload s')"
    using s'(2) by (rule grows_trans)
  moreover have "renderItems sc (item # items) s = Some s'"
    using html s'(1) by simp
  moreover have "set (filesToDownload s') =
         set (filesToDownload s) \<union> (\<lambda>item. artifactUrl (doi (attributes item))) ` set (item # items)"
    using s'(3) by (simp add: set_setAdd)
  ultimately show ?case by blast
qed

lemma renderResults_grows:
  "\<exists>s'. renderResults response sc s = Some s'
     \<and> grows (filesToDownload s) (filesToDownload s')
     \<and> set (filesToDownload s') =
         set (filesToDownload s)
           \<union> (\<lambda>item. artifactUrl (doi (attributes item))) ` set (data response)"
proof (cases "data response = []")
  case True
  then show ?thesis by (simp add: renderResults_def grows_refl)
next
  case False
  then show ?thesis
    using renderItems_grows [of sc "data response" "s\<lparr>container := Some [DownloadButton]\<rparr>"]
    by (simp add: renderResults_def)
qed

lemma performSearch_grows:
  "\<exists>s'. performSearch fetch sc operatorValue s = Some s'
     \<and> grows (filesToDownload s) (filesToDownload s')"
proof (cases "container s")
  case None
  then show ?thesis by (simp add: performSearch_def grows_refl)
next
  case (Some children)
  show ?thesis
  proof (cases "hasAtLeastOneQuery sc")
    case False
    then show ?thesis using Some by (simp add: performSearch_def grows_refl)
  next
    case True
    let ?operator = "case operatorValue of None \<Rightarrow> ''AND''
                           | Some v \<Rightarrow> if v \<noteq> [] then v else ''AND''"
    obtain urls result where sd: "searchDois fetch sc ?operator = (urls, result)"
      by (cases "searchDois fetch sc ?operator") auto
    let ?s1 = "s\<lparr>container := Some [Markup ''Loading...''], requested := requested s @ urls\<rparr>"
    show ?thesis
    proof (cases result)
      case (Inl e)
      then show ?thesis using Some True sd by (simp add: performSearch_def Let_def grows_refl)
    next
      case (Inr response)
      obtain s' where "renderResults response sc ?s1 = Some s'"
        "grows (filesToDownload ?s1) (filesToDownload s')"
        using renderResults_grows [of response sc ?s1] by blast
      then show ?thesis
        using Some True sd Inr by (simp add: performSearch_def Let_def)
    qed
  qed
qed

lemma step_grows:
  "\<exists>s'. step e s = Some s' \<and> grows (filesToDownload s) (filesToDownload s')"
proof (cases e)
  case (Submit fetch sc operatorValue)
  then show ?thesis using performSearch_grows by simp
next
  case (ClickDownload fetchOk)
  then show ?thesis by (auto simp: grows_refl split: option.splits)
qed

lemma run_grows:
  "\<exists>s'. run events s = Some s' \<and> grows (filesToDownload s) (filesToDownload s')"
proof (induction events arbitrary: s)
  case Nil
  show ?case by (simp add: grows_refl)
next
  case (Cons e events)
  obtain s1 where s1: "step e s = Some s1" "grows (filesToDownload s) (filesToDownload s1)"
    using step_grows by blast
  obtain s' where s': "run events s1 = Some s'" "grows (filesToDownload s1) (filesToDownload s')"
    using Cons.IH by blast
  have "run (e # events) s = Some s'" using s1(1) s'(1) by simp
  moreover have "grows (filesToDownload s) (filesToDownload s')"
    using s1(2) s'(2) by (rule grows_trans)
  ultimately show ?case by blast
qed



text \<open>
  Claim C9. Whatever the user does, from any state, the program goes on and
  \<^verbatim>\<open>filesToDownload\<close> only grows: its elements stay, in their places, and what is added is
  an artifact URL. \<^verbatim>\<open>renderResults\<close> adds the artifact URL of each record of the response
  that the set does not hold yet, and nothing else; the click on the download button
  leaves the set as it is.
\<close>

theorem filesToDownload_only_grows:
  "(\<exists>s'. run events s = Some s' \<and> grows (filesToDownload s) (filesToDownload s'))
   \<and> (\<exists>s'. renderResults response sc s = Some s'
         \<and> grows (filesToDownload s) (filesToDownload s')
         \<and> set (filesToDownload s') =
             set (filesToDownload s)
               \<union> (\<lambda>item. artifactUrl (doi (attributes item))) ` set (data response))
   \<and> (\<exists>s'. step (ClickDownload fetchOk) s = Some s'
         \<and> filesToDownload s' = filesToDownload s)"
proof -
  have "\<exists>s'. step (ClickDownload fetchOk) s = Some s'
         \<and> filesToDownload s' = filesToDownload s"
    by (auto split: option.splits)
  then show ?thesis using run_grows renderResults_grows by blast
qed

theorem filesToDownload_only_grows_witness:
  "(\<exists>s'. run exampleSession initialState = Some s'
       \<and> grows (filesToDownload initialState) (filesToDownload s'))
   \<and> map_option filesToDownload (run exampleSession initialState)
       = Some [''https://static.prod.raid.org.au/raids/10.1/a.download/'',
               ''https://static.prod.raid.org.au/raids/10.1/b.download/'']"
proof -
  have "map_option filesToDownload (run exampleSession initialState)
       = Some [''https://static.prod.raid.org.au/raids/10.1/a.download/'',
               ''https://static.prod.raid.org.au/raids/10.1/b.download/'']"
    by code_simp
  then show ?thesis
    using filesToDownload_only_grows [of exampleSession initialState] by blast
qed

end
